theory Spec2Isabelle
  imports Complex_Main
begin

section \<open>Python values used by the payment gateway\<close>

text \<open>
  The services of the gateway are Python methods over Django model objects.  A method is
  embedded as a function that takes the object (and the rows it reads) and returns the
  object as saved; an exception is a value of \<open>py_error\<close>; times are seconds.
\<close>

datatype py_error =
  TypeError | ValueError | IndexError | DoesNotExist | IntegrityError | DataError | InvalidOperation

text \<open>Python's \<^verbatim>\<open>xs[i]\<close>: a negative index counts from the end, anything else
  out of range raises.\<close>

definition py_index :: "'a list \<Rightarrow> int \<Rightarrow> py_error + 'a" where
  "py_index xs i =
     (if 0 \<le> i \<and> i < int (length xs) then Inr (xs ! nat i)
      else if i < 0 \<and> - int (length xs) \<le> i then Inr (xs ! nat (int (length xs) + i))
      else Inl IndexError)"

section \<open>Webhook delivery: \<^verbatim>\<open>ProviderWebhook\<close> and \<^verbatim>\<open>send_provider_webhooks\<close>\<close>

record provider_webhook =
  delivered :: bool
  delivery_attempts :: int
  last_attempt :: "int option"
  next_retry :: "int option"
  response_code :: "int option"
  response_body :: string
  error_message :: string
  delivered_at :: "int option"

definition mark_delivered :: "provider_webhook \<Rightarrow> int \<Rightarrow> string \<Rightarrow> int \<Rightarrow> provider_webhook" where
  "mark_delivered self rc body now =
     self\<lparr>delivered := True, delivered_at := Some now,
          response_code := Some rc, response_body := body\<rparr>"

definition retry_delays :: "int list" where
  "retry_delays = [300, 900, 1800, 3600, 7200]"

text \<open>
  \<^verbatim>\<open>mark_failed\<close> writes four fields, then picks the delay, then saves.  The result is
  the object as the call leaves it, with \<open>None\<close> when it was saved and the exception when
  the indexing raised before \<^verbatim>\<open>save()\<close>.  The two reads of the clock in one call are
  one instant \<open>now\<close>.
\<close>

definition mark_failed ::
  "provider_webhook \<Rightarrow> string \<Rightarrow> int option \<Rightarrow> int \<Rightarrow> py_error option \<times> provider_webhook" where
  "mark_failed self msg rc now =
     (let w = self\<lparr>error_message := msg, response_code := rc,
                    delivery_attempts := delivery_attempts self + 1,
                    last_attempt := Some now\<rparr>
      in if delivery_attempts w \<le> int (length retry_delays)
         then (case py_index retry_delays (delivery_attempts w - 1) of
                 Inl e \<Rightarrow> (Some e, w)
               | Inr delay \<Rightarrow> (None, w\<lparr>next_retry := Some (now + delay)\<rparr>))
         else (None, w))"


text \<open>What the POST of one webhook came to: a response with its status code and text, or
  an exception raised inside the \<^verbatim>\<open>try\<close> block, with its message.\<close>

datatype http_outcome = Response int string | Raised string

fun digit_char :: "nat \<Rightarrow> char" where
  "digit_char n = (''0123456789'' ! (n mod 10))"

fun str_nat :: "nat \<Rightarrow> string" where
  "str_nat n = (if n < 10 then [digit_char n] else str_nat (n div 10) @ [digit_char n])"

definition str_int :: "int \<Rightarrow> string" where
  "str_int i = (if i < 0 then CHR ''-'' # str_nat (nat (- i)) else str_nat (nat i))"

text \<open>
  The body of the loop for one webhook.  A status in \<open>range(200, 300)\<close> marks it
  delivered; any other status marks it failed; an exception in the \<^verbatim>\<open>try\<close> block,
  one raised by \<^verbatim>\<open>mark_failed\<close> itself included, runs the handler, which calls
  \<^verbatim>\<open>mark_failed\<close> on the same object.  An exception of the handler leaves the loop.
\<close>

definition attempt_webhook ::
  "provider_webhook \<Rightarrow> http_outcome \<Rightarrow> int \<Rightarrow> py_error option \<times> provider_webhook" where
  "attempt_webhook w out now =
     (case out of
        Response sc body \<Rightarrow>
          if 200 \<le> sc \<and> sc < 300 then (None, mark_delivered w sc (take 1000 body) now)
          else (case mark_failed w (''HTTP '' @ str_int sc @ '': '' @ take 500 body) (Some sc) now of
                  (None, w') \<Rightarrow> (None, w')
                | (Some e, w') \<Rightarrow> mark_failed w' ''list index out of range'' None now)
      | Raised msg \<Rightarrow> mark_failed w msg None now)"

text \<open>The loop over the selected rows \<open>sel\<close> (indices into the table); \<open>post i\<close> is the
  outcome of posting row \<open>i\<close> and \<open>clock i\<close> the time of its bookkeeping.  The flag is the
  task's \<^verbatim>\<open>success\<close>; only saved objects reach the table.\<close>

fun send_loop ::
  "(nat \<Rightarrow> http_outcome) \<Rightarrow> (nat \<Rightarrow> int) \<Rightarrow> nat list \<Rightarrow> provider_webhook list
     \<Rightarrow> bool \<times> provider_webhook list" where
  "send_loop post clock [] table = (True, table)"
| "send_loop post clock (i # sel) table =
     (case attempt_webhook (table ! i) (post i) (clock i) of
        (None, w') \<Rightarrow> send_loop post clock sel (table[i := w'])
      | (Some e, w') \<Rightarrow> (False, table))"



section \<open>Transactions and promo links: the rows\<close>

text \<open>
  The fields of \<^verbatim>\<open>Transaction\<close>, \<^verbatim>\<open>PromoLink\<close> and \<^verbatim>\<open>TransactionLog\<close> that the
  payment and promo services read or write.  A status is the string the code stores.
  \<^verbatim>\<open>save()\<close> writes every field of the object into the row with its primary key.
\<close>

record transaction =
  txn_id :: string
  status :: string
  payment_reference :: string
  txn_expires_at :: int
  completed_at :: "int option"
  provider :: "string option"

record promo_link =
  link_id :: string
  link_transaction :: string
  code :: string
  is_used :: bool
  used_at :: "int option"
  used_ip :: "string option"
  recipient_wallet :: string
  recipient_email :: string
  recipient_telegram :: string
  link_expires_at :: int

record transaction_log =
  log_transaction :: string
  action :: string
  old_status :: string
  new_status :: string

record database =
  transactions :: "transaction list"
  promo_links :: "promo_link list"
  logs :: "transaction_log list"

definition save_transaction :: "database \<Rightarrow> transaction \<Rightarrow> database" where
  "save_transaction db t =
     db\<lparr>transactions := map (\<lambda>r. if txn_id r = txn_id t then t else r) (transactions db)\<rparr>"

definition save_promo_link :: "database \<Rightarrow> promo_link \<Rightarrow> database" where
  "save_promo_link db p =
     db\<lparr>promo_links := map (\<lambda>r. if link_id r = link_id p then p else r) (promo_links db)\<rparr>"

section \<open>\<^verbatim>\<open>PromoLinkService\<close>\<close>

text \<open>
  A dict of recipient data is a list of keys with their values; a value is a string or
  \<^verbatim>\<open>None\<close>.  The claim view builds the dict with the keys \<^verbatim>\<open>wallet\<close>, \<^verbatim>\<open>email\<close> and
  \<^verbatim>\<open>telegram\<close> always present, each \<^verbatim>\<open>None\<close> when the request left the contact out.
  \<open>dict_get\<close> is \<^verbatim>\<open>d.get(k, default)\<close>: the default stands in for an absent key only.
  \<^verbatim>\<open>None\<close> and the empty string are falsy.
\<close>

type_synonym recipient_data = "(string \<times> string option) list"

definition dict_get :: "recipient_data \<Rightarrow> string \<Rightarrow> string option \<Rightarrow> string option" where
  "dict_get d k dflt = (case map_of d k of None \<Rightarrow> dflt | Some v \<Rightarrow> v)"

definition truthy :: "string option \<Rightarrow> bool" where
  "truthy v = (v \<noteq> None \<and> v \<noteq> Some [])"

record claim_result =
  success :: bool
  message :: string
  error_code :: "string option"
  payout_reference :: "string option"

definition failure :: "string \<Rightarrow> string \<Rightarrow> claim_result" where
  "failure msg ec = \<lparr>success = False, message = msg, error_code = Some ec, payout_reference = None\<rparr>"

text \<open>\<^verbatim>\<open>PromoLink.is_expired\<close>: \<^verbatim>\<open>timezone.now() > self.expires_at\<close>.\<close>

definition is_expired :: "promo_link \<Rightarrow> int \<Rightarrow> bool" where
  "is_expired p now = (link_expires_at p < now)"

record validation =
  valid :: bool
  v_message :: string
  v_error_code :: "string option"

definition validate_promo_link :: "promo_link \<Rightarrow> transaction \<Rightarrow> int \<Rightarrow> validation" where
  "validate_promo_link p t now =
     (if is_used p then
        \<lparr>valid = False, v_message = ''This promo code has already been used'',
         v_error_code = Some ''ALREADY_USED''\<rparr>
      else if is_expired p now then
        \<lparr>valid = False, v_message = ''This promo code has expired'',
         v_error_code = Some ''EXPIRED''\<rparr>
      else if status t \<notin> set [''completed'', ''pending''] then
        \<lparr>valid = False, v_message = ''This promo code is no longer valid'',
         v_error_code = Some ''INVALID_TRANSACTION''\<rparr>
      else
        \<lparr>valid = True, v_message = ''Promo code is valid and ready to claim'',
         v_error_code = None\<rparr>)"

definition validate_recipient_data :: "recipient_data \<Rightarrow> bool" where
  "validate_recipient_data d =
     (if d = [] then False
      else truthy (dict_get d ''email'' None) \<or> truthy (dict_get d ''telegram'' None) \<or>
           truthy (dict_get d ''wallet'' None))"

text \<open>\<^verbatim>\<open>_simulate_payout\<close> succeeds on every branch; only its reference differs.\<close>

definition simulate_payout :: "transaction \<Rightarrow> recipient_data \<Rightarrow> string" where
  "simulate_payout t d =
     (if truthy (dict_get d ''wallet'' None) then ''crypto_payout_'' @ txn_id t
      else if truthy (dict_get d ''email'' None) then ''email_payout_'' @ txn_id t
      else ''payout_'' @ txn_id t)"

definition process_claim :: "transaction \<Rightarrow> recipient_data \<Rightarrow> claim_result" where
  "process_claim t d =
     (if \<not> validate_recipient_data d then
        failure ''Invalid recipient information provided'' ''INVALID_RECIPIENT_DATA''
      else \<lparr>success = True, message = ''Funds claimed successfully'', error_code = None,
            payout_reference = Some (simulate_payout t d)\<rparr>)"

text \<open>
  \<^verbatim>\<open>mark_as_used\<close> ends with \<^verbatim>\<open>save()\<close>, which can raise.  The three recipient columns
  are NOT NULL, so a \<^verbatim>\<open>None\<close> taken from the dict raises \<^verbatim>\<open>IntegrityError\<close>.  What else
  the database checks on the row (column lengths, the format of the address) depends on
  the backend, which is not part of the sources: it is the parameter \<open>db_accepts\<close>.
  The result is the row as saved, or the exception.
\<close>

definition mark_as_used ::
  "(promo_link \<Rightarrow> bool) \<Rightarrow> promo_link \<Rightarrow> string option \<Rightarrow> recipient_data \<Rightarrow> int
     \<Rightarrow> py_error + promo_link" where
  "mark_as_used db_accepts self ip d now =
     (let p = self\<lparr>is_used := True, used_at := Some now, used_ip := ip\<rparr>
      in if d \<noteq> [] then
           (case (dict_get d ''wallet'' (Some []), dict_get d ''email'' (Some []),
                  dict_get d ''telegram'' (Some [])) of
              (Some w, Some e, Some g) \<Rightarrow>
                (let p' = p\<lparr>recipient_wallet := w, recipient_email := e,
                              recipient_telegram := g\<rparr>
                 in if db_accepts p' then Inr p' else Inl DataError)
            | _ \<Rightarrow> Inl IntegrityError)
         else if db_accepts p then Inr p else Inl DataError)"

text \<open>
  \<^verbatim>\<open>claim_promo_link\<close> in its two database phases.  \<open>load_promo_link\<close> is the query
  \<^verbatim>\<open>PromoLink.objects.select_related('transaction').get(code=promo_code)\<close>: it returns
  the objects the rest of the call works on.  \<open>claim_loaded\<close> is the rest: validation and
  payout on the loaded objects, then \<^verbatim>\<open>mark_as_used\<close> and the saves; an exception of
  \<^verbatim>\<open>mark_as_used\<close> is caught by the call's \<^verbatim>\<open>except Exception\<close> and becomes the result
  \<^verbatim>\<open>CLAIM_ERROR\<close>, with nothing saved.  The call is the two in sequence.
\<close>

definition load_promo_link :: "database \<Rightarrow> string \<Rightarrow> (promo_link \<times> transaction) option" where
  "load_promo_link db promo_code =
     (case find (\<lambda>p. code p = promo_code) (promo_links db) of
        None \<Rightarrow> None
      | Some p \<Rightarrow>
          (case find (\<lambda>t. txn_id t = link_transaction p) (transactions db) of
             None \<Rightarrow> None
           | Some t \<Rightarrow> Some (p, t)))"

definition claim_loaded ::
  "(promo_link \<Rightarrow> bool) \<Rightarrow> database \<Rightarrow> promo_link \<times> transaction \<Rightarrow> recipient_data
     \<Rightarrow> string option \<Rightarrow> int \<Rightarrow> claim_result \<times> database" where
  "claim_loaded db_accepts db loaded d ip now =
     (let p = fst loaded; t = snd loaded; v = validate_promo_link p t now
      in if \<not> valid v then
           (\<lparr>success = False, message = v_message v, error_code = v_error_code v,
             payout_reference = None\<rparr>, db)
         else
           (let r = process_claim t d
            in if success r then
                 (case mark_as_used db_accepts p ip d now of
                    Inl e \<Rightarrow>
                      (failure ''An error occurred while processing your claim'' ''CLAIM_ERROR'',
                       db)
                  | Inr p' \<Rightarrow>
                      (let db1 = save_promo_link db p'
                       in if status t = ''completed''
                          then (r, save_transaction db1 (t\<lparr>status := ''claimed''\<rparr>))
                          else (r, db1)))
               else (r, db)))"

definition claim_promo_link ::
  "(promo_link \<Rightarrow> bool) \<Rightarrow> database \<Rightarrow> string \<Rightarrow> recipient_data \<Rightarrow> string option \<Rightarrow> int
     \<Rightarrow> claim_result \<times> database" where
  "claim_promo_link db_accepts db promo_code d ip now =
     (case load_promo_link db promo_code of
        None \<Rightarrow> (failure ''Promo code not found'' ''PROMO_NOT_FOUND'', db)
      | Some loaded \<Rightarrow> claim_loaded db_accepts db loaded d ip now)"

subsection \<open>Issuing a code\<close>

text \<open>
  \<^verbatim>\<open>str.replace\<close> takes the old and the new substring; called with any other number of
  string arguments it raises \<^verbatim>\<open>TypeError\<close>.  \<open>replace_all\<close> is the replacement itself,
  left to right, without overlaps.
\<close>

function replace_all :: "string \<Rightarrow> string \<Rightarrow> string \<Rightarrow> string" where
  "replace_all old new s =
     (if s = [] then (if old = [] then new else [])
      else if old = [] then new @ hd s # replace_all old new (tl s)
      else if take (length old) s = old then new @ replace_all old new (drop (length old) s)
      else hd s # replace_all old new (tl s))"
  by pat_completeness auto

termination
  by (relation "measure (\<lambda>(old, new, s). length s)") auto

definition str_replace :: "string \<Rightarrow> string list \<Rightarrow> py_error + string" where
  "str_replace s args =
     (case args of [old, new] \<Rightarrow> Inr (replace_all old new s) | _ \<Rightarrow> Inl TypeError)"

definition ascii_uppercase :: string where
  "ascii_uppercase = ''ABCDEFGHIJKLMNOPQRSTUVWXYZ''"

definition digits :: string where
  "digits = ''0123456789''"

text \<open>
  \<^verbatim>\<open>_generate_promo_code\<close>, with the four \<^verbatim>\<open>replace\<close> calls as the source writes them:
  the last one is \<^verbatim>\<open>.replace('I')\<close>.  \<open>draws\<close> are the values \<^verbatim>\<open>secrets.choice\<close> picks.
\<close>

definition generate_promo_code :: "nat \<Rightarrow> (nat \<Rightarrow> nat) \<Rightarrow> py_error + string" where
  "generate_promo_code code_length draws =
     (case str_replace (ascii_uppercase @ digits) [''0'', []] of
        Inl e \<Rightarrow> Inl e
      | Inr c1 \<Rightarrow>
     (case str_replace c1 [''O'', []] of
        Inl e \<Rightarrow> Inl e
      | Inr c2 \<Rightarrow>
     (case str_replace c2 [''1'', []] of
        Inl e \<Rightarrow> Inl e
      | Inr c3 \<Rightarrow>
     (case str_replace c3 [''I''] of
        Inl e \<Rightarrow> Inl e
      | Inr chars \<Rightarrow>
          if chars = [] \<and> 0 < code_length then Inl IndexError
          else Inr (map (\<lambda>i. chars ! (draws i mod length chars)) [0..<code_length])))))"

text \<open>The \<^verbatim>\<open>while\<close> loop of \<^verbatim>\<open>create_promo_link\<close>: a new code while the current one is
  taken.  Attempt \<open>k\<close> draws from \<open>rnd k\<close>; nothing bounds the number of attempts.\<close>

partial_function (option) retry_until_unique ::
  "promo_link list \<Rightarrow> nat \<Rightarrow> (nat \<Rightarrow> nat \<Rightarrow> nat) \<Rightarrow> nat \<Rightarrow> string \<Rightarrow> (py_error + string) option" where
  "retry_until_unique links code_length rnd k promo_code =
     (if find (\<lambda>p. code p = promo_code) links \<noteq> None then
        (case generate_promo_code code_length (rnd k) of
           Inl e \<Rightarrow> Some (Inl e)
         | Inr c \<Rightarrow> retry_until_unique links code_length rnd (Suc k) c)
      else Some (Inr promo_code))"

text \<open>\<^verbatim>\<open>create_promo_link\<close>: the new row takes \<^verbatim>\<open>expires_at\<close> from the transaction
  (its URL and QR image are left out).  The result is \<open>None\<close> when the loop never ends.\<close>

definition create_promo_link ::
  "database \<Rightarrow> transaction \<Rightarrow> string \<Rightarrow> nat \<Rightarrow> (nat \<Rightarrow> nat \<Rightarrow> nat)
     \<Rightarrow> ((py_error + promo_link) \<times> database) option" where
  "create_promo_link db t new_id code_length rnd =
     (case generate_promo_code code_length (rnd 0) of
        Inl e \<Rightarrow> Some (Inl e, db)
      | Inr c0 \<Rightarrow>
          (case retry_until_unique (promo_links db) code_length rnd 1 c0 of
             None \<Rightarrow> None
           | Some (Inl e) \<Rightarrow> Some (Inl e, db)
           | Some (Inr promo_code) \<Rightarrow>
               (let p = \<lparr>link_id = new_id, link_transaction = txn_id t, code = promo_code,
                         is_used = False, used_at = None, used_ip = None,
                         recipient_wallet = [], recipient_email = [], recipient_telegram = [],
                         link_expires_at = txn_expires_at t\<rparr>
                in Some (Inr p, db\<lparr>promo_links := promo_links db @ [p]\<rparr>))))"

section \<open>\<^verbatim>\<open>PaymentService.process_fiat_payment\<close>\<close>

record payment_result =
  pr_success :: bool
  pr_transaction_id :: string
  pr_status :: string
  pr_reference :: string
  pr_message :: string

text \<open>\<^verbatim>\<open>_log_transaction_action\<close>: \<^verbatim>\<open>old_status or ''\<close> and
  \<^verbatim>\<open>new_status or transaction_obj.status\<close>.\<close>

definition log_transaction_action ::
  "database \<Rightarrow> transaction \<Rightarrow> string \<Rightarrow> string option \<Rightarrow> string option \<Rightarrow> database" where
  "log_transaction_action db t act old new =
     db\<lparr>logs := logs db @
        [\<lparr>log_transaction = txn_id t, action = act,
          old_status = (case old of None \<Rightarrow> [] | Some s \<Rightarrow> s),
          new_status = (case new of None \<Rightarrow> status t
                        | Some s \<Rightarrow> if s = [] then status t else s)\<rparr>]\<rparr>"

text \<open>\<^verbatim>\<open>_process_stripe_payment\<close> is a simulation that always reports success.\<close>

definition process_stripe_payment :: "transaction \<Rightarrow> bool \<times> string \<times> string" where
  "process_stripe_payment t = (True, ''stripe_'' @ txn_id t, ''Payment processed successfully'')"

definition process_fiat_payment ::
  "database \<Rightarrow> string \<Rightarrow> (string \<times> string) list \<Rightarrow> int
     \<Rightarrow> (py_error + payment_result) \<times> database" where
  "process_fiat_payment db transaction_id payment_method_data now =
     (case find (\<lambda>t. txn_id t = transaction_id) (transactions db) of
        None \<Rightarrow> (Inl ValueError, db)
      | Some t \<Rightarrow>
          if status t \<noteq> ''pending'' then (Inl ValueError, db)
          else
            (let t1 = t\<lparr>status := ''processing''\<rparr>;
                 db1 = save_transaction db t1;
                 db2 = log_transaction_action db1 t1 ''status_changed''
                         (Some ''pending'') (Some ''processing'')
             in if map_of payment_method_data ''method'' \<noteq> Some ''stripe''
                then (Inl ValueError, db2)
                else
                  (case process_stripe_payment t1 of
                     (ok, reference, msg) \<Rightarrow>
                       if ok then
                         (let t2 = t1\<lparr>status := ''completed'', completed_at := Some now,
                                      payment_reference := reference\<rparr>;
                              db3 = save_transaction db2 t2;
                              db4 = log_transaction_action db3 t2 ''payment_completed'' None None
                          in (Inr \<lparr>pr_success = True, pr_transaction_id = txn_id t2,
                                   pr_status = status t2, pr_reference = payment_reference t2,
                                   pr_message = msg\<rparr>, db4))
                       else
                         (let t2 = t1\<lparr>status := ''failed''\<rparr>;
                              db3 = save_transaction db2 t2;
                              db4 = log_transaction_action db3 t2 ''payment_failed'' None None
                          in (Inr \<lparr>pr_success = False, pr_transaction_id = txn_id t2,
                                   pr_status = status t2, pr_reference = payment_reference t2,
                                   pr_message = msg\<rparr>, db4)))))"

text \<open>The transition table of the specification: the targets allowed from a status,
  the side branches from every non-terminal status included.\<close>

definition terminal_statuses :: "string list" where
  "terminal_statuses = [''completed'', ''expired'', ''cancelled'', ''failed'', ''refunded'']"

definition table_targets :: "string \<Rightarrow> string list" where
  "table_targets s =
     (if s = ''pending'' then [''payment_processing'', ''expired'', ''cancelled'']
      else if s = ''payment_processing'' then [''payment_confirmed'', ''failed'']
      else if s = ''payment_confirmed'' then [''escrowed'']
      else if s = ''escrowed'' then [''ready_for_claim'']
      else if s = ''ready_for_claim'' then [''claim_processing'', ''expired'']
      else if s = ''claim_processing'' then [''completed'', ''ready_for_claim'', ''refunded'']
      else [])"

definition allowed_transition :: "string \<Rightarrow> string \<Rightarrow> bool" where
  "allowed_transition s s' =
     (s' \<in> set (table_targets s) \<or>
      (s \<notin> set terminal_statuses \<and> s' \<in> set [''expired'', ''cancelled'', ''failed'', ''refunded'']))"

section \<open>Python's \<^verbatim>\<open>Decimal\<close> in the default context\<close>

text \<open>
  Amounts and rates are \<^verbatim>\<open>decimal.Decimal\<close> values: a signed integer coefficient and an
  exponent, standing for \<open>coefficient * 10 ^ exponent\<close>.  The services never change the
  context, so every arithmetic result is rounded to 28 significant digits, half to even.
  Comparison and truth value are exact.  The exponent limits of the context
  (\<open>\<plusminus>999999\<close>), infinities and NaN are left out.
\<close>

datatype decimal = Decimal (coefficient: int) (exponent: int)

definition dec_val :: "decimal \<Rightarrow> rat" where
  "dec_val d = of_int (coefficient d) * 10 powi exponent d"

definition prec :: nat where
  "prec = 28"

fun ndigits :: "nat \<Rightarrow> nat" where
  "ndigits n = (if n < 10 then 1 else Suc (ndigits (n div 10)))"

declare ndigits.simps [simp del]

text \<open>\<open>c / 10 ^ k\<close> rounded to an integer, a tie going to the even neighbour.\<close>

definition round_half_even :: "int \<Rightarrow> nat \<Rightarrow> int" where
  "round_half_even c k =
     (let q = \<bar>c\<bar> div 10 ^ k; r = \<bar>c\<bar> mod 10 ^ k;
          q' = (if 10 ^ k < 2 * r \<or> (2 * r = 10 ^ k \<and> odd q) then q + 1 else q)
      in if c < 0 then - q' else q')"

text \<open>The rounding every operation ends with: a coefficient of more than \<open>prec\<close> digits
  loses its last digits, and a carry into a further digit drops one more.\<close>

definition dec_fix :: "decimal \<Rightarrow> decimal" where
  "dec_fix d =
     (let n = ndigits (nat \<bar>coefficient d\<bar>)
      in if n \<le> prec then d
         else (let k = n - prec; c = round_half_even (coefficient d) k
               in if \<bar>c\<bar> = 10 ^ prec then Decimal (c div 10) (exponent d + int k + 1)
                  else Decimal c (exponent d + int k)))"

definition dec_mul :: "decimal \<Rightarrow> decimal \<Rightarrow> decimal" where
  "dec_mul a b = dec_fix (Decimal (coefficient a * coefficient b) (exponent a + exponent b))"

definition dec_add :: "decimal \<Rightarrow> decimal \<Rightarrow> decimal" where
  "dec_add a b =
     (let e = min (exponent a) (exponent b)
      in dec_fix (Decimal (coefficient a * 10 ^ nat (exponent a - e) +
                           coefficient b * 10 ^ nat (exponent b - e)) e))"

definition dec_neg :: "decimal \<Rightarrow> decimal" where
  "dec_neg a = Decimal (- coefficient a) (exponent a)"

definition dec_sub :: "decimal \<Rightarrow> decimal \<Rightarrow> decimal" where
  "dec_sub a b = dec_add a (dec_neg b)"

definition dec_le :: "decimal \<Rightarrow> decimal \<Rightarrow> bool" where
  "dec_le a b =
     (let e = min (exponent a) (exponent b)
      in coefficient a * 10 ^ nat (exponent a - e) \<le> coefficient b * 10 ^ nat (exponent b - e))"

text \<open>\<^verbatim>\<open>bool(d)\<close>: a Decimal is falsy exactly when it is zero.\<close>

definition dec_truthy :: "decimal \<Rightarrow> bool" where
  "dec_truthy d = (coefficient d \<noteq> 0)"

text \<open>\<^verbatim>\<open>d.quantize(Decimal(1).scaleb(-places))\<close>: the value at exactly \<open>places\<close>
  decimal places, half to even.  The services never call it; \<^verbatim>\<open>save()\<close> does, for every
  \<^verbatim>\<open>DecimalField\<close>, and it states what rounding to a currency's precision would be.\<close>

definition dec_quantize :: "decimal \<Rightarrow> nat \<Rightarrow> decimal" where
  "dec_quantize d places =
     (if - int places \<le> exponent d
      then Decimal (coefficient d * 10 ^ nat (exponent d + int places)) (- int places)
      else Decimal (round_half_even (coefficient d) (nat (- int places - exponent d)))
             (- int places))"

section \<open>\<^verbatim>\<open>EscrowAccount\<close>\<close>

record escrow_account =
  total_balance :: decimal
  available_balance :: decimal
  reserved_balance :: decimal

text \<open>
  \<^verbatim>\<open>Model.save()\<close> prepares every balance for its column, a
  \<^verbatim>\<open>DecimalField(max_digits=20, decimal_places=8)\<close>, with Django's \<^verbatim>\<open>format_number\<close>:
  the value is quantized to eight places in a context of precision 20, half to even,
  and \<^verbatim>\<open>decimal.InvalidOperation\<close> is raised when the result needs more than 20 digits.
  The row is written only when all three balances have been prepared.
\<close>

definition store_decimal :: "decimal \<Rightarrow> py_error + decimal" where
  "store_decimal d =
     (let q = dec_quantize d 8
      in if \<bar>coefficient q\<bar> < 10 ^ 20 then Inr q else Inl InvalidOperation)"

definition save_escrow_account :: "escrow_account \<Rightarrow> py_error + escrow_account" where
  "save_escrow_account self =
     (case store_decimal (total_balance self) of
        Inl e \<Rightarrow> Inl e
      | Inr t \<Rightarrow>
          (case store_decimal (available_balance self) of
             Inl e \<Rightarrow> Inl e
           | Inr a \<Rightarrow>
               (case store_decimal (reserved_balance self) of
                  Inl e \<Rightarrow> Inl e
                | Inr r \<Rightarrow>
                    Inr \<lparr>total_balance = t, available_balance = a, reserved_balance = r\<rparr>)))"

text \<open>
  The three methods of the ledger.  Each takes the account as loaded and gives what
  the call returns together with the row the database holds afterwards: the row as
  saved on \<^verbatim>\<open>True\<close>, the row as it was on \<^verbatim>\<open>False\<close>.  None of them catches the exception
  of \<^verbatim>\<open>save()\<close>: the call then raises and the row is as it was.
\<close>

definition reserve_funds :: "escrow_account \<Rightarrow> decimal \<Rightarrow> py_error + bool \<times> escrow_account" where
  "reserve_funds self amount =
     (if dec_le amount (available_balance self)
      then (case save_escrow_account
                   (self\<lparr>available_balance := dec_sub (available_balance self) amount,
                         reserved_balance := dec_add (reserved_balance self) amount\<rparr>) of
              Inl e \<Rightarrow> Inl e
            | Inr row \<Rightarrow> Inr (True, row))
      else Inr (False, self))"

definition release_funds :: "escrow_account \<Rightarrow> decimal \<Rightarrow> py_error + bool \<times> escrow_account" where
  "release_funds self amount =
     (if dec_le amount (reserved_balance self)
      then (case save_escrow_account
                   (self\<lparr>reserved_balance := dec_sub (reserved_balance self) amount,
                         total_balance := dec_sub (total_balance self) amount\<rparr>) of
              Inl e \<Rightarrow> Inl e
            | Inr row \<Rightarrow> Inr (True, row))
      else Inr (False, self))"

definition return_funds :: "escrow_account \<Rightarrow> decimal \<Rightarrow> py_error + bool \<times> escrow_account" where
  "return_funds self amount =
     (if dec_le amount (reserved_balance self)
      then (case save_escrow_account
                   (self\<lparr>reserved_balance := dec_sub (reserved_balance self) amount,
                         available_balance := dec_add (available_balance self) amount\<rparr>) of
              Inl e \<Rightarrow> Inl e
            | Inr row \<Rightarrow> Inr (True, row))
      else Inr (False, self))"

text \<open>
  The balance update of \<^verbatim>\<open>_move_to_escrow\<close> (and of \<^verbatim>\<open>_move_crypto_to_escrow\<close>) on
  the account that \<^verbatim>\<open>get_or_create\<close> returned: the deposit of the net amount.  The
  whole body is in a \<^verbatim>\<open>try\<close>: when \<^verbatim>\<open>save()\<close> raises, the result is \<^verbatim>\<open>success: False\<close> and
  the row is as it was.
\<close>

definition move_to_escrow :: "escrow_account \<Rightarrow> decimal \<Rightarrow> bool \<times> escrow_account" where
  "move_to_escrow escrow_account net_amount =
     (case save_escrow_account
             (escrow_account\<lparr>total_balance := dec_add (total_balance escrow_account) net_amount,
                             available_balance :=
                               dec_add (available_balance escrow_account) net_amount\<rparr>) of
        Inl e \<Rightarrow> (False, escrow_account)
      | Inr row \<Rightarrow> (True, row))"

text \<open>A sequence of calls on one account, each on the row the one before left; a call
  that raises leaves the row as it was.\<close>

datatype escrow_op = Reserve decimal | Release decimal | Return decimal | Deposit decimal

definition row_after :: "escrow_account \<Rightarrow> py_error + bool \<times> escrow_account \<Rightarrow> escrow_account" where
  "row_after a r = (case r of Inl e \<Rightarrow> a | Inr (ok, a') \<Rightarrow> a')"

fun escrow_step :: "escrow_account \<Rightarrow> escrow_op \<Rightarrow> escrow_account" where
  "escrow_step a (Reserve x) = row_after a (reserve_funds a x)"
| "escrow_step a (Release x) = row_after a (release_funds a x)"
| "escrow_step a (Return x) = row_after a (return_funds a x)"
| "escrow_step a (Deposit x) = snd (move_to_escrow a x)"

fun op_amount :: "escrow_op \<Rightarrow> decimal" where
  "op_amount (Reserve x) = x"
| "op_amount (Release x) = x"
| "op_amount (Return x) = x"
| "op_amount (Deposit x) = x"

section \<open>\<^verbatim>\<open>CommissionService\<close>\<close>

record currency =
  currency_code :: string
  decimal_places :: nat

record provider_row =
  provider_id :: string
  provider_is_active :: bool
  commission_rate :: decimal

text \<open>A \<^verbatim>\<open>CommissionSetting\<close> row; its two foreign keys are NULL or the key of a
  currency (its code) and of a provider.\<close>

record commission_setting =
  setting_currency :: "string option"
  setting_provider :: "string option"
  rate :: decimal
  is_active :: bool
  is_global :: bool

text \<open>
  \<^verbatim>\<open>_get_commission_rate\<close>.  Each \<^verbatim>\<open>filter(...).first()\<close> is the first matching row of
  the settings in the order of the model's \<^verbatim>\<open>Meta.ordering\<close>; \<open>settings\<close> is the table
  in that order.  The provider is looked up by id among the active providers only.
\<close>

definition get_commission_rate ::
  "decimal \<Rightarrow> provider_row list \<Rightarrow> commission_setting list \<Rightarrow> currency option
     \<Rightarrow> string option \<Rightarrow> decimal" where
  "get_commission_rate default_rate providers settings cur pid =
     (let prov = (case pid of
                    None \<Rightarrow> None
                  | Some i \<Rightarrow> if i = [] then None
                             else find (\<lambda>p. provider_id p = i \<and> provider_is_active p) providers)
      in case (case (prov, cur) of
                 (Some p, Some c) \<Rightarrow>
                   find (\<lambda>s. setting_provider s = Some (provider_id p) \<and>
                              setting_currency s = Some (currency_code c) \<and> is_active s) settings
               | _ \<Rightarrow> None) of
           Some s \<Rightarrow> rate s
         | None \<Rightarrow>
        (case (case prov of
                 None \<Rightarrow> None
               | Some p \<Rightarrow>
                   (case find (\<lambda>s. setting_provider s = Some (provider_id p) \<and>
                                    setting_currency s = None \<and> is_active s) settings of
                      Some s \<Rightarrow> Some (rate s)
                    | None \<Rightarrow> if dec_truthy (commission_rate p)
                              then Some (commission_rate p) else None)) of
           Some r \<Rightarrow> r
         | None \<Rightarrow>
        (case (case cur of
                 None \<Rightarrow> None
               | Some c \<Rightarrow>
                   find (\<lambda>s. setting_currency s = Some (currency_code c) \<and>
                              setting_provider s = None \<and> is_active s) settings) of
           Some s \<Rightarrow> rate s
         | None \<Rightarrow>
        (case find (\<lambda>s. is_global s \<and> is_active s) settings of
           Some g \<Rightarrow> rate g
         | None \<Rightarrow> default_rate))))"

record commission =
  com_rate :: decimal
  com_amount :: decimal
  com_net_amount :: decimal
  com_original_amount :: decimal
  com_currency :: string

definition calculate_commission ::
  "decimal \<Rightarrow> provider_row list \<Rightarrow> commission_setting list \<Rightarrow> decimal \<Rightarrow> currency
     \<Rightarrow> string option \<Rightarrow> commission" where
  "calculate_commission default_rate providers settings amount cur pid =
     (let commission_rate = get_commission_rate default_rate providers settings (Some cur) pid;
          commission_amount = dec_mul amount commission_rate;
          net_amount = dec_sub amount commission_amount
      in \<lparr>com_rate = commission_rate, com_amount = commission_amount,
          com_net_amount = net_amount, com_original_amount = amount,
          com_currency = currency_code cur\<rparr>)"

section \<open>What the properties speak of\<close>

text \<open>Predicates on the model and the specification's own rules, used to state the
  properties below.\<close>



text \<open>The balances of an account add up and none is negative.\<close>

definition balanced :: "escrow_account \<Rightarrow> bool" where
  "balanced a =
     (dec_val (total_balance a) = dec_val (available_balance a) + dec_val (reserved_balance a)
      \<and> 0 \<le> dec_val (total_balance a) \<and> 0 \<le> dec_val (available_balance a)
      \<and> 0 \<le> dec_val (reserved_balance a))"

text \<open>An amount passed to the ledger: not negative, at most eight decimal places.\<close>

definition money :: "decimal \<Rightarrow> bool" where
  "money x = (0 \<le> coefficient x \<and> - 8 \<le> exponent x)"

text \<open>A value a \<^verbatim>\<open>DecimalField(max_digits=20, decimal_places=8)\<close> can hold.\<close>

definition field_value :: "decimal \<Rightarrow> bool" where
  "field_value d = (- 8 \<le> exponent d \<and> \<bar>dec_val d\<bar> < 10 ^ 12)"

text \<open>An account whose three balances are values of their columns.\<close>

definition stored_row :: "escrow_account \<Rightarrow> bool" where
  "stored_row a =
     (field_value (total_balance a) \<and> field_value (available_balance a)
      \<and> field_value (reserved_balance a))"

text \<open>
  The waterfall in the specification's words: the levels in their order of precedence,
  each giving a rate or nothing, the first that gives one wins, the system default
  last.  \<open>provider_default\<close> says when the provider's own rate field counts as a match.
\<close>

fun first_match :: "'a option list \<Rightarrow> 'a \<Rightarrow> 'a" where
  "first_match [] dflt = dflt"
| "first_match (Some x # levels) dflt = x"
| "first_match (None # levels) dflt = first_match levels dflt"

definition resolve_provider :: "provider_row list \<Rightarrow> string option \<Rightarrow> provider_row option" where
  "resolve_provider providers pid =
     (case pid of
        None \<Rightarrow> None
      | Some i \<Rightarrow> if i = [] then None
                 else find (\<lambda>p. provider_id p = i \<and> provider_is_active p) providers)"

definition scoped_setting ::
  "commission_setting list \<Rightarrow> string option \<Rightarrow> string option \<Rightarrow> decimal option" where
  "scoped_setting settings p c =
     map_option rate
       (find (\<lambda>s. setting_provider s = p \<and> setting_currency s = c \<and> is_active s) settings)"

definition global_setting :: "commission_setting list \<Rightarrow> decimal option" where
  "global_setting settings = map_option rate (find (\<lambda>s. is_global s \<and> is_active s) settings)"

definition waterfall ::
  "(provider_row \<Rightarrow> decimal option) \<Rightarrow> decimal \<Rightarrow> provider_row list \<Rightarrow> commission_setting list
     \<Rightarrow> currency \<Rightarrow> string option \<Rightarrow> decimal" where
  "waterfall provider_default default_rate providers settings c pid =
     first_match
       [Option.bind (resolve_provider providers pid)
          (\<lambda>p. scoped_setting settings (Some (provider_id p)) (Some (currency_code c))),
        Option.bind (resolve_provider providers pid)
          (\<lambda>p. scoped_setting settings (Some (provider_id p)) None),
        Option.bind (resolve_provider providers pid) provider_default,
        scoped_setting settings None (Some (currency_code c)),
        global_setting settings]
       default_rate"

text \<open>As the claim states level three: the provider's rate field, whatever it holds.\<close>

definition waterfall_as_claimed ::
  "decimal \<Rightarrow> provider_row list \<Rightarrow> commission_setting list \<Rightarrow> currency \<Rightarrow> string option
     \<Rightarrow> decimal" where
  "waterfall_as_claimed = waterfall (\<lambda>p. Some (commission_rate p))"

text \<open>As the code has it: the provider's rate field counts only when it is not zero.\<close>

definition nonzero_rate :: "provider_row \<Rightarrow> decimal option" where
  "nonzero_rate p = (if dec_truthy (commission_rate p) then Some (commission_rate p) else None)"

section \<open>Example rows\<close>





definition unused_link :: promo_link where
  "unused_link =
     \<lparr>link_id = ''L1'', link_transaction = ''T1'', code = ''K7M2QX9A'', is_used = False,
      used_at = None, used_ip = None, recipient_wallet = [], recipient_email = [],
      recipient_telegram = [], link_expires_at = 86400\<rparr>"

definition escrowed_transaction :: transaction where
  "escrowed_transaction =
     \<lparr>txn_id = ''T1'', status = ''ready_for_claim'', payment_reference = [],
      txn_expires_at = 86400, completed_at = None, provider = None\<rparr>"

text \<open>A database that enforces the lengths the recipient columns declare.\<close>

definition max_lengths :: "promo_link \<Rightarrow> bool" where
  "max_lengths p =
     (length (recipient_wallet p) \<le> 255 \<and> length (recipient_email p) \<le> 254 \<and>
      length (recipient_telegram p) \<le> 100)"

text \<open>Recipient data as the claim view builds it: all three contacts given, twice, and
  a request that gave the wallet only.\<close>

definition alice :: recipient_data where
  "alice = [(''wallet'', Some ''walletA''), (''email'', Some ''a@example.org''),
            (''telegram'', Some ''@alice''), (''payout_method'', Some ''crypto'')]"

definition bob :: recipient_data where
  "bob = [(''wallet'', Some ''walletB''), (''email'', Some ''b@example.org''),
          (''telegram'', Some ''@bob''), (''payout_method'', Some ''crypto'')]"

definition wallet_only :: recipient_data where
  "wallet_only = [(''wallet'', Some ''walletA''), (''email'', None), (''telegram'', None),
                  (''payout_method'', Some ''crypto'')]"

definition paid_transaction :: transaction where
  "paid_transaction =
     \<lparr>txn_id = ''T1'', status = ''completed'', payment_reference = ''stripe_T1'',
      txn_expires_at = 86400, completed_at = Some 60, provider = None\<rparr>"

definition claim_db :: database where
  "claim_db = \<lparr>transactions = [paid_transaction], promo_links = [unused_link], logs = []\<rparr>"

definition new_transaction :: transaction where
  "new_transaction =
     \<lparr>txn_id = ''T1'', status = ''pending'', payment_reference = [],
      txn_expires_at = 86400, completed_at = None, provider = None\<rparr>"

definition payment_db :: database where
  "payment_db = \<lparr>transactions = [new_transaction], promo_links = [unused_link], logs = []\<rparr>"

definition fifty :: escrow_account where
  "fifty = \<lparr>total_balance = Decimal 50 0, available_balance = Decimal 50 0,
             reserved_balance = Decimal 0 0\<rparr>"

text \<open>An account holding the smallest amount a column can tell from zero.\<close>

definition one_unit :: escrow_account where
  "one_unit = \<lparr>total_balance = Decimal 1 (- 8), available_balance = Decimal 1 (- 8),
                reserved_balance = Decimal 0 (- 8)\<rparr>"

text \<open>A row with the reserved balance near the top of its column.  Its balances do
  not add up: no row whose balances add up has room for the reservation to overflow.\<close>

definition crowded :: escrow_account where
  "crowded = \<lparr>total_balance = Decimal 999999999999 0, available_balance = Decimal 900000000000 0,
               reserved_balance = Decimal 900000000000 0\<rparr>"

definition usd :: currency where
  "usd = \<lparr>currency_code = ''USD'', decimal_places = 2\<rparr>"

definition vpn_provider :: provider_row where
  "vpn_provider = \<lparr>provider_id = ''P1'', provider_is_active = True,
                    commission_rate = Decimal 400 (- 4)\<rparr>"

definition all_scopes :: "commission_setting list" where
  "all_scopes =
     [\<lparr>setting_currency = None, setting_provider = None, rate = Decimal 1000 (- 4),
       is_active = True, is_global = True\<rparr>,
      \<lparr>setting_currency = Some ''USD'', setting_provider = None, rate = Decimal 300 (- 4),
       is_active = True, is_global = False\<rparr>,
      \<lparr>setting_currency = None, setting_provider = Some ''P1'', rate = Decimal 200 (- 4),
       is_active = True, is_global = False\<rparr>,
      \<lparr>setting_currency = Some ''USD'', setting_provider = Some ''P1'', rate = Decimal 100 (- 4),
       is_active = True, is_global = False\<rparr>]"

definition free_provider :: provider_row where
  "free_provider = \<lparr>provider_id = ''P2'', provider_is_active = True,
                     commission_rate = Decimal 0 (- 4)\<rparr>"

definition hundred :: decimal where
  "hundred = Decimal 10000000000 (- 8)"

definition five_elevenths :: decimal where
  "five_elevenths = Decimal 4545454545454545454545454545 (- 28)"

definition ten_percent :: "commission_setting list" where
  "ten_percent =
     [\<lparr>setting_currency = None, setting_provider = None, rate = Decimal 1000 (- 4),
       is_active = True, is_global = True\<rparr>]"

definition one_cent :: decimal where
  "one_cent = Decimal 1 (- 2)"

definition five_percent :: "commission_setting list" where
  "five_percent =
     [\<lparr>setting_currency = None, setting_provider = None, rate = Decimal 500 (- 4),
       is_active = True, is_global = True\<rparr>]"

section \<open>Webhook retry schedule\<close>







lemma send_loop_length: "length (snd (send_loop post clock sel table)) = length table"
  by (induction sel arbitrary: table) (auto split: prod.splits option.splits)











section \<open>Promo links: issuing, validation, claiming\<close>

lemma generate_promo_code_raises: "generate_promo_code n draws = Inl TypeError"
  by (simp add: generate_promo_code_def str_replace_def)

text \<open>
  C9.  The code does not produce the claim's code: the last \<^verbatim>\<open>replace\<close> of
  \<^verbatim>\<open>_generate_promo_code\<close> is called with one argument and raises \<^verbatim>\<open>TypeError\<close>, for
  every configured length and every random draw, so \<^verbatim>\<open>create_promo_link\<close> raises before
  it looks for a collision and stores no row.
\<close>

theorem create_promo_link_raises:
  "generate_promo_code n draws = Inl TypeError \<and>
   create_promo_link db t new_id n rnd = Some (Inl TypeError, db)"
  by (simp add: create_promo_link_def generate_promo_code_raises)

lemma validate_used:
  "is_used p \<Longrightarrow> v_error_code (validate_promo_link p t now) = Some ''ALREADY_USED''"
  by (simp add: validate_promo_link_def)

lemma validate_expired:
  "\<not> is_used p \<Longrightarrow> link_expires_at p < now \<Longrightarrow>
     validate_promo_link p t now =
       \<lparr>valid = False, v_message = ''This promo code has expired'', v_error_code = Some ''EXPIRED''\<rparr>"
  by (simp add: validate_promo_link_def is_expired_def)

lemma claim_expired:
  assumes "load_promo_link db c = Some (p, t)" "\<not> is_used p" "link_expires_at p < now"
  shows "claim_promo_link db_accepts db c d ip now =
           (\<lparr>success = False, message = ''This promo code has expired'',
             error_code = Some ''EXPIRED'', payout_reference = None\<rparr>, db)"
  using assms by (simp add: claim_promo_link_def claim_loaded_def validate_expired)

text \<open>
  C7.  An unused link that has not expired, on a transaction in \<^verbatim>\<open>ready_for_claim\<close>
  (the status \<^verbatim>\<open>confirm_card_payment\<close> stores once the funds are in escrow, and the one
  \<^verbatim>\<open>process_promo_claim_with_payout\<close> requires), is rejected with
  \<^verbatim>\<open>INVALID_TRANSACTION\<close>; the same link on a \<^verbatim>\<open>pending\<close> transaction, whose payment
  has not arrived, is valid.
\<close>

theorem validate_rejects_ready_for_claim:
  "validate_promo_link unused_link escrowed_transaction 3600 =
     \<lparr>valid = False, v_message = ''This promo code is no longer valid'',
      v_error_code = Some ''INVALID_TRANSACTION''\<rparr>
   \<and> valid (validate_promo_link unused_link (escrowed_transaction\<lparr>status := ''pending''\<rparr>) 3600)"
  by (simp add: validate_promo_link_def is_expired_def unused_link_def escrowed_transaction_def)

lemma find_after_save:
  assumes "find (\<lambda>r. key r = k) xs = Some x" "key y = k"
  shows "find (\<lambda>r. key r = k) (map (\<lambda>r. if pk r = pk x then y else r) xs) = Some y"
  using assms by (induction xs) (auto split: if_splits)

lemma find_after_save_some:
  assumes "find (\<lambda>r. key r = k) xs = Some x" "key y = key z"
  shows "find (\<lambda>r. key r = k) (map (\<lambda>r. if key r = key z then y else r) xs) \<noteq> None"
  using assms by (induction xs) (auto split: if_splits)

lemma mark_as_used_fields:
  assumes "mark_as_used db_accepts p ip d now = Inr p'"
  shows "is_used p'" "code p' = code p" "link_transaction p' = link_transaction p"
    "link_id p' = link_id p"
  using assms
  by (auto simp: mark_as_used_def Let_def split: if_splits option.splits prod.splits)

lemma mark_as_used_none:
  assumes "d \<noteq> []"
    and "dict_get d ''wallet'' (Some []) = None \<or> dict_get d ''email'' (Some []) = None \<or>
         dict_get d ''telegram'' (Some []) = None"
  shows "mark_as_used db_accepts p ip d now = Inl IntegrityError"
  using assms by (auto simp: mark_as_used_def Let_def split: option.splits)

lemma load_Some:
  "load_promo_link db c = Some (p, t) \<longleftrightarrow>
     find (\<lambda>p. code p = c) (promo_links db) = Some p \<and>
     find (\<lambda>t. txn_id t = link_transaction p) (transactions db) = Some t"
  by (auto simp: load_promo_link_def split: option.splits)

lemma claim_success_loaded:
  assumes "success (fst (claim_promo_link db_accepts db c d ip now))"
  obtains p t p' where "load_promo_link db c = Some (p, t)"
    and "mark_as_used db_accepts p ip d now = Inr p'"
    and "snd (claim_promo_link db_accepts db c d ip now) =
           (if status t = ''completed''
            then save_transaction (save_promo_link db p') (t\<lparr>status := ''claimed''\<rparr>)
            else save_promo_link db p')"
  using assms
  by (auto simp: claim_promo_link_def claim_loaded_def failure_def Let_def
           split: option.splits if_splits sum.splits)

lemma used_claim_fails:
  assumes "load_promo_link db c = Some (p, t)" "is_used p"
  shows "claim_promo_link db_accepts db c d ip now =
           (failure ''This promo code has already been used'' ''ALREADY_USED'', db)"
  using assms
  by (simp add: claim_promo_link_def claim_loaded_def validate_promo_link_def failure_def)

lemma load_after_claim:
  assumes ld: "load_promo_link db c = Some (p, t)"
    and same: "code p' = code p" "link_id p' = link_id p" "link_transaction p' = link_transaction p"
  shows "\<exists>t'. load_promo_link (save_promo_link db p') c = Some (p', t')"
    and "\<exists>t'. load_promo_link
                 (save_transaction (save_promo_link db p') (t\<lparr>status := ''claimed''\<rparr>)) c
               = Some (p', t')"
proof -
  from ld have fp: "find (\<lambda>p. code p = c) (promo_links db) = Some p"
    and ft: "find (\<lambda>t. txn_id t = link_transaction p) (transactions db) = Some t"
    by (simp_all add: load_Some)
  have cp: "code p = c" using fp by (auto dest: find_Some_iff [THEN iffD1])
  have fp': "find (\<lambda>p. code p = c) (promo_links (save_promo_link db p')) = Some p'"
    unfolding save_promo_link_def
    using find_after_save [OF fp, of p' link_id] cp same by simp
  show "\<exists>t'. load_promo_link (save_promo_link db p') c = Some (p', t')"
    using fp' ft same by (simp add: load_Some save_promo_link_def)
  have tid: "txn_id t = link_transaction p"
    using ft by (auto dest: find_Some_iff [THEN iffD1])
  have "find (\<lambda>r. txn_id r = link_transaction p)
          (map (\<lambda>r. if txn_id r = txn_id t then t\<lparr>status := ''claimed''\<rparr> else r) (transactions db))
        = Some (t\<lparr>status := ''claimed''\<rparr>)"
    using find_after_save [OF ft, of "t\<lparr>status := ''claimed''\<rparr>" txn_id] tid by simp
  then show "\<exists>t'. load_promo_link
                 (save_transaction (save_promo_link db p') (t\<lparr>status := ''claimed''\<rparr>)) c
               = Some (p', t')"
    using fp' same by (simp add: load_Some save_promo_link_def save_transaction_def)
qed

text \<open>
  C1, as the code has it.  When a call of \<^verbatim>\<open>claim_promo_link\<close> succeeds, every later
  call on the same code, whatever its recipient, address and time, fails with
  \<^verbatim>\<open>ALREADY_USED\<close> and changes nothing.  The first call succeeds when the link it loads
  is valid, the recipient data names a contact and the save of the link goes through.
  The save raises when the dict holds \<^verbatim>\<open>None\<close> for the wallet, the email or the
  telegram name, as the claim view writes it for a contact the request left out: the
  call then returns \<^verbatim>\<open>CLAIM_ERROR\<close> and nothing is changed.  So of two calls made one
  after the other at most one succeeds, and exactly one when the first is saved.
\<close>

theorem sequential_claims_at_most_once:
  "(success (fst (claim_promo_link db_accepts db c d ip now)) \<longrightarrow>
      (\<forall>d' ip' now'.
         claim_promo_link db_accepts (snd (claim_promo_link db_accepts db c d ip now)) c d' ip' now' =
           (failure ''This promo code has already been used'' ''ALREADY_USED'',
            snd (claim_promo_link db_accepts db c d ip now))))
   \<and> (\<forall>p t p'. load_promo_link db c = Some (p, t) \<and> valid (validate_promo_link p t now) \<and>
          validate_recipient_data d \<and> mark_as_used db_accepts p ip d now = Inr p' \<longrightarrow>
        success (fst (claim_promo_link db_accepts db c d ip now)))
   \<and> (\<forall>p t. load_promo_link db c = Some (p, t) \<and> valid (validate_promo_link p t now) \<and>
          validate_recipient_data d \<and>
          (dict_get d ''wallet'' (Some []) = None \<or> dict_get d ''email'' (Some []) = None \<or>
           dict_get d ''telegram'' (Some []) = None) \<longrightarrow>
        claim_promo_link db_accepts db c d ip now =
          (failure ''An error occurred while processing your claim'' ''CLAIM_ERROR'', db))"
proof (intro conjI impI allI)
  fix d' ip' now'
  assume ok: "success (fst (claim_promo_link db_accepts db c d ip now))"
  let ?db' = "snd (claim_promo_link db_accepts db c d ip now)"
  from ok obtain p t p' where ld: "load_promo_link db c = Some (p, t)"
    and saved: "mark_as_used db_accepts p ip d now = Inr p'"
    and db': "?db' = (if status t = ''completed''
                      then save_transaction (save_promo_link db p') (t\<lparr>status := ''claimed''\<rparr>)
                      else save_promo_link db p')"
    by (rule claim_success_loaded)
  note f = mark_as_used_fields [OF saved]
  have "\<exists>t'. load_promo_link ?db' c = Some (p', t')"
    using load_after_claim [OF ld f(2) f(4) f(3)] db' by simp
  then obtain t' where "load_promo_link ?db' c = Some (p', t')" ..
  then show "claim_promo_link db_accepts ?db' c d' ip' now' =
      (failure ''This promo code has already been used'' ''ALREADY_USED'', ?db')"
    using f(1) by (rule used_claim_fails)
next
  fix p t p'
  assume "load_promo_link db c = Some (p, t) \<and> valid (validate_promo_link p t now) \<and>
          validate_recipient_data d \<and> mark_as_used db_accepts p ip d now = Inr p'"
  then show "success (fst (claim_promo_link db_accepts db c d ip now))"
    by (simp add: claim_promo_link_def claim_loaded_def process_claim_def Let_def)
next
  fix p t
  assume a: "load_promo_link db c = Some (p, t) \<and> valid (validate_promo_link p t now) \<and>
          validate_recipient_data d \<and>
          (dict_get d ''wallet'' (Some []) = None \<or> dict_get d ''email'' (Some []) = None \<or>
           dict_get d ''telegram'' (Some []) = None)"
  then have "d \<noteq> []" by (auto simp: validate_recipient_data_def)
  with a have "mark_as_used db_accepts p ip d now = Inl IntegrityError"
    by (intro mark_as_used_none) simp_all
  with a show "claim_promo_link db_accepts db c d ip now =
          (failure ''An error occurred while processing your claim'' ''CLAIM_ERROR'', db)"
    by (simp add: claim_promo_link_def claim_loaded_def process_claim_def Let_def)
qed

lemma first_claim_runs:
  "load_promo_link claim_db ''K7M2QX9A'' = Some (unused_link, paid_transaction)"
  "valid (validate_promo_link unused_link paid_transaction 100)"
  "validate_recipient_data alice" "validate_recipient_data wallet_only"
  "mark_as_used max_lengths unused_link None alice 100 =
     Inr (unused_link\<lparr>is_used := True, used_at := Some 100, used_ip := None,
                      recipient_wallet := ''walletA'', recipient_email := ''a@example.org'',
                      recipient_telegram := ''@alice''\<rparr>)"
  "dict_get wallet_only ''email'' (Some []) = None"
  by (simp_all add: load_promo_link_def claim_db_def unused_link_def paid_transaction_def
      validate_promo_link_def is_expired_def validate_recipient_data_def dict_get_def
      truthy_def mark_as_used_def max_lengths_def alice_def wallet_only_def Let_def)

theorem sequential_claims_at_most_once_witness:
  "success (fst (claim_promo_link max_lengths claim_db ''K7M2QX9A'' alice None 100))
   \<and> claim_promo_link max_lengths
        (snd (claim_promo_link max_lengths claim_db ''K7M2QX9A'' alice None 100))
        ''K7M2QX9A'' bob None 101
      = (failure ''This promo code has already been used'' ''ALREADY_USED'',
         snd (claim_promo_link max_lengths claim_db ''K7M2QX9A'' alice None 100))
   \<and> claim_promo_link max_lengths claim_db ''K7M2QX9A'' wallet_only None 100
      = (failure ''An error occurred while processing your claim'' ''CLAIM_ERROR'', claim_db)"
proof -
  note t = sequential_claims_at_most_once [of max_lengths claim_db "''K7M2QX9A''" alice None 100]
  note u = sequential_claims_at_most_once
             [of max_lengths claim_db "''K7M2QX9A''" wallet_only None 100]
  from t first_claim_runs(1,2,3,5)
  have first: "success (fst (claim_promo_link max_lengths claim_db ''K7M2QX9A'' alice None 100))"
    by blast
  with t have second: "claim_promo_link max_lengths
        (snd (claim_promo_link max_lengths claim_db ''K7M2QX9A'' alice None 100))
        ''K7M2QX9A'' bob None 101
      = (failure ''This promo code has already been used'' ''ALREADY_USED'',
         snd (claim_promo_link max_lengths claim_db ''K7M2QX9A'' alice None 100))"
    by blast
  from u first_claim_runs(1,2,4,6)
  have third: "claim_promo_link max_lengths claim_db ''K7M2QX9A'' wallet_only None 100
      = (failure ''An error occurred while processing your claim'' ''CLAIM_ERROR'', claim_db)"
    by blast
  from first second third show ?thesis by blast
qed

text \<open>
  C1 as stated fails for calls that overlap: the row is read once, checked in memory
  and written back unconditionally, with no compare-and-set.  Two calls that both run
  their query on the same database before either saves both succeed, for two
  recipients and with one and the same payout reference.
\<close>

theorem concurrent_claims_both_succeed:
  "load_promo_link claim_db ''K7M2QX9A'' = Some (unused_link, paid_transaction)
   \<and> success (fst (claim_loaded max_lengths claim_db (unused_link, paid_transaction)
                    alice None 100))
   \<and> success (fst (claim_loaded max_lengths
                    (snd (claim_loaded max_lengths claim_db (unused_link, paid_transaction)
                            alice None 100))
                    (unused_link, paid_transaction) bob None 101))
   \<and> payout_reference (fst (claim_loaded max_lengths claim_db (unused_link, paid_transaction)
                               alice None 100)) = Some ''crypto_payout_T1''
   \<and> payout_reference (fst (claim_loaded max_lengths
                    (snd (claim_loaded max_lengths claim_db (unused_link, paid_transaction)
                            alice None 100))
                    (unused_link, paid_transaction) bob None 101)) = Some ''crypto_payout_T1''"
  by (simp add: claim_loaded_def load_promo_link_def claim_db_def
      unused_link_def paid_transaction_def validate_promo_link_def is_expired_def
      process_claim_def validate_recipient_data_def simulate_payout_def dict_get_def truthy_def
      mark_as_used_def max_lengths_def alice_def bob_def Let_def)

section \<open>Transaction status changes\<close>

lemma claim_keeps_other_statuses:
  assumes "load_promo_link db c = Some (p, t)" "status t \<noteq> ''completed''"
  shows "transactions (snd (claim_promo_link db_accepts db c d ip now)) = transactions db"
  using assms
  by (simp add: claim_promo_link_def claim_loaded_def save_promo_link_def Let_def
      split: sum.splits)

lemma fiat_rejects_not_pending:
  assumes "find (\<lambda>t. txn_id t = tid) (transactions db) = Some t" "status t \<noteq> ''pending''"
  shows "process_fiat_payment db tid m now = (Inl ValueError, db)"
  using assms by (simp add: process_fiat_payment_def)

lemma fiat_completes_pending:
  assumes ft: "find (\<lambda>t. txn_id t = tid) (transactions db) = Some t"
    and pend: "status t = ''pending''" and stripe: "map_of m ''method'' = Some ''stripe''"
  shows "\<exists>r db' t'. process_fiat_payment db tid m now = (Inr r, db') \<and> pr_success r \<and>
           pr_status r = ''completed'' \<and>
           find (\<lambda>t. txn_id t = tid) (transactions db') = Some t' \<and>
           status t' = ''completed'' \<and> completed_at t' = Some now"
proof -
  have tid: "txn_id t = tid" using ft by (auto dest: find_Some_iff [THEN iffD1])
  define t1 where "t1 = t\<lparr>status := ''processing''\<rparr>"
  define t2 where "t2 = t1\<lparr>status := ''completed'', completed_at := Some now,
                          payment_reference := ''stripe_'' @ txn_id t1\<rparr>"
  define db2 where "db2 = log_transaction_action (save_transaction db t1) t1
                            ''status_changed'' (Some ''pending'') (Some ''processing'')"
  define db4 where "db4 = log_transaction_action (save_transaction db2 t2) t2
                            ''payment_completed'' None None"
  define r where "r = \<lparr>pr_success = True, pr_transaction_id = txn_id t2, pr_status = status t2,
                        pr_reference = payment_reference t2,
                        pr_message = ''Payment processed successfully''\<rparr>"
  have run: "process_fiat_payment db tid m now = (Inr r, db4)"
    unfolding process_fiat_payment_def process_stripe_payment_def
    using ft pend stripe by (simp add: Let_def t1_def t2_def db2_def db4_def r_def)
  have ids: "txn_id t1 = tid" "txn_id t2 = tid"
    by (simp_all add: t1_def t2_def tid)
  have rows2: "transactions db2 = map (\<lambda>r. if txn_id r = txn_id t then t1 else r) (transactions db)"
    by (simp add: db2_def log_transaction_action_def save_transaction_def t1_def)
  have f1: "find (\<lambda>r. txn_id r = tid) (transactions db2) = Some t1"
    unfolding rows2 using find_after_save [OF ft, of t1 txn_id] ids by simp
  have rows4: "transactions db4 = map (\<lambda>r. if txn_id r = txn_id t1 then t2 else r) (transactions db2)"
    by (simp add: db4_def log_transaction_action_def save_transaction_def ids)
  have f2: "find (\<lambda>r. txn_id r = tid) (transactions db4) = Some t2"
    unfolding rows4 using find_after_save [OF f1, of t2 txn_id] ids by simp
  have "pr_success r" "pr_status r = ''completed''" "status t2 = ''completed''"
    "completed_at t2 = Some now"
    by (simp_all add: r_def t2_def)
  with run f2 show ?thesis by blast
qed

text \<open>
  C3, as the code has it.  There is no transition table: an operation checks at most its
  own source status.  \<^verbatim>\<open>process_fiat_payment\<close> takes a transaction only in \<^verbatim>\<open>pending\<close>;
  in any other status, \<^verbatim>\<open>completed\<close> included, it raises \<^verbatim>\<open>ValueError\<close> and changes
  nothing, so a payment submitted again is an error and not a silent success.  A pending
  transaction paid by stripe ends \<^verbatim>\<open>completed\<close> with \<^verbatim>\<open>completed_at\<close> set.
  \<^verbatim>\<open>claim_promo_link\<close> leaves the status of a transaction that is not \<^verbatim>\<open>completed\<close>
  as it is.
\<close>

theorem status_changes_guarded_by_source_only:
  "(\<forall>t. find (\<lambda>t. txn_id t = tid) (transactions db) = Some t \<and> status t \<noteq> ''pending'' \<longrightarrow>
        process_fiat_payment db tid m now = (Inl ValueError, db))
   \<and> (\<forall>t. find (\<lambda>t. txn_id t = tid) (transactions db) = Some t \<and> status t = ''pending'' \<and>
           map_of m ''method'' = Some ''stripe'' \<longrightarrow>
        (\<exists>r db' t'. process_fiat_payment db tid m now = (Inr r, db') \<and> pr_success r \<and>
           pr_status r = ''completed'' \<and>
           find (\<lambda>t. txn_id t = tid) (transactions db') = Some t' \<and>
           status t' = ''completed'' \<and> completed_at t' = Some now))
   \<and> (\<forall>p t. load_promo_link db c = Some (p, t) \<and> status t \<noteq> ''completed'' \<longrightarrow>
        transactions (snd (claim_promo_link db_accepts db c d ip now')) = transactions db)"
  using fiat_rejects_not_pending fiat_completes_pending claim_keeps_other_statuses
  by (intro conjI allI impI) (blast+)

theorem status_changes_guarded_by_source_only_witness:
  "find (\<lambda>t. txn_id t = ''T1'') (transactions claim_db) = Some paid_transaction
   \<and> status paid_transaction = ''completed''
   \<and> process_fiat_payment claim_db ''T1'' [(''method'', ''stripe'')] 70 = (Inl ValueError, claim_db)
   \<and> find (\<lambda>t. txn_id t = ''T1'') (transactions payment_db) = Some new_transaction
   \<and> (\<exists>r db' t'. process_fiat_payment payment_db ''T1'' [(''method'', ''stripe'')] 50 = (Inr r, db')
         \<and> pr_success r \<and> pr_status r = ''completed''
         \<and> find (\<lambda>t. txn_id t = ''T1'') (transactions db') = Some t'
         \<and> status t' = ''completed'' \<and> completed_at t' = Some 50)
   \<and> load_promo_link payment_db ''K7M2QX9A'' = Some (unused_link, new_transaction)
   \<and> transactions (snd (claim_promo_link max_lengths payment_db ''K7M2QX9A'' alice None 100))
       = transactions payment_db"
proof -
  have a: "find (\<lambda>t. txn_id t = ''T1'') (transactions claim_db) = Some paid_transaction"
    "status paid_transaction = ''completed''" "status paid_transaction \<noteq> ''pending''"
    by (simp_all add: claim_db_def paid_transaction_def)
  have b: "find (\<lambda>t. txn_id t = ''T1'') (transactions payment_db) = Some new_transaction"
    "status new_transaction = ''pending''" "status new_transaction \<noteq> ''completed''"
    "map_of [(''method'', ''stripe'')] ''method'' = Some ''stripe''"
    by (simp_all add: payment_db_def new_transaction_def)
  have c: "load_promo_link payment_db ''K7M2QX9A'' = Some (unused_link, new_transaction)"
    by (simp add: load_promo_link_def payment_db_def unused_link_def new_transaction_def)
  note t1 = status_changes_guarded_by_source_only
              [of "''T1''" claim_db "[(''method'', ''stripe'')]" 70]
  note t2 = status_changes_guarded_by_source_only
              [of "''T1''" payment_db "[(''method'', ''stripe'')]" 50
                  "''K7M2QX9A''" max_lengths alice None 100]
  from t1 a have one: "process_fiat_payment claim_db ''T1'' [(''method'', ''stripe'')] 70
                         = (Inl ValueError, claim_db)"
    by blast
  from t2 b have two: "\<exists>r db' t'.
        process_fiat_payment payment_db ''T1'' [(''method'', ''stripe'')] 50 = (Inr r, db')
         \<and> pr_success r \<and> pr_status r = ''completed''
         \<and> find (\<lambda>t. txn_id t = ''T1'') (transactions db') = Some t'
         \<and> status t' = ''completed'' \<and> completed_at t' = Some 50"
    by blast
  from t2 b c have three:
    "transactions (snd (claim_promo_link max_lengths payment_db ''K7M2QX9A'' alice None 100))
       = transactions payment_db"
    by blast
  from a b c one two three show ?thesis by blast
qed

text \<open>
  C3 as stated fails on \<^verbatim>\<open>process_fiat_payment\<close>.  Paying a pending transaction
  writes the status \<^verbatim>\<open>processing\<close> and logs the change from \<^verbatim>\<open>pending\<close>, a target the
  table does not allow from \<^verbatim>\<open>pending\<close>, and goes on to \<^verbatim>\<open>completed\<close>; and submitting
  the payment of a transaction that is already \<^verbatim>\<open>completed\<close> raises \<^verbatim>\<open>ValueError\<close>
  where the claim asks for a success that changes nothing.
\<close>

theorem status_changes_ignore_transition_table:
  "\<not> allowed_transition ''pending'' ''processing''
   \<and> logs (snd (process_fiat_payment payment_db ''T1'' [(''method'', ''stripe'')] 50)) =
       [\<lparr>log_transaction = ''T1'', action = ''status_changed'',
         old_status = ''pending'', new_status = ''processing''\<rparr>,
        \<lparr>log_transaction = ''T1'', action = ''payment_completed'',
         old_status = [], new_status = ''completed''\<rparr>]
   \<and> status paid_transaction = ''completed''
   \<and> process_fiat_payment claim_db ''T1'' [(''method'', ''stripe'')] 70 = (Inl ValueError, claim_db)"
  by (simp add: allowed_transition_def table_targets_def terminal_statuses_def
      process_fiat_payment_def process_stripe_payment_def save_transaction_def
      log_transaction_action_def payment_db_def claim_db_def new_transaction_def
      paid_transaction_def Let_def)

section \<open>Decimal arithmetic: where it is exact\<close>

text \<open>A result whose coefficient has at most 28 digits is not rounded.  Sums and
  differences of values with at most eight decimal places are exact below \<open>10 ^ 20\<close>,
  which covers every value of a \<^verbatim>\<open>DecimalField(max_digits=20, decimal_places=8)\<close>.\<close>

lemma ndigits_le: "0 < k \<Longrightarrow> n < 10 ^ k \<Longrightarrow> ndigits n \<le> k"
proof (induction n arbitrary: k rule: ndigits.induct)
  case (1 n)
  show ?case
  proof (cases "n < 10")
    case True
    with 1 show ?thesis by (simp add: ndigits.simps [of n])
  next
    case False
    from "1.prems" obtain j where k: "k = Suc j" by (cases k) auto
    with False "1.prems" have "0 < j" by (cases j) auto
    moreover have "n div 10 < 10 ^ j" using "1.prems" k by (simp add: less_mult_imp_div_less mult.commute)
    ultimately have "ndigits (n div 10) \<le> j" using "1.IH" False by simp
    then show ?thesis using False k by (simp add: ndigits.simps [of n])
  qed
qed

lemma dec_fix_small: "\<bar>coefficient d\<bar> < 10 ^ 28 \<Longrightarrow> dec_fix d = d"
proof -
  assume "\<bar>coefficient d\<bar> < 10 ^ 28"
  then have "nat \<bar>coefficient d\<bar> < 10 ^ 28" by (simp add: nat_less_iff)
  then have "ndigits (nat \<bar>coefficient d\<bar>) \<le> 28" by (intro ndigits_le) simp_all
  then show ?thesis by (simp add: dec_fix_def prec_def)
qed

lemma val_aligned:
  assumes "e \<le> exponent a"
  shows "of_int (coefficient a * 10 ^ nat (exponent a - e)) * 10 powi e = dec_val a"
proof -
  have "(10::rat) ^ nat (exponent a - e) * 10 powi e = 10 powi exponent a"
    using assms power_int_add [of "10::rat" "exponent a - e" e]
    by (simp add: power_int_def)
  then show ?thesis
    by (simp add: dec_val_def mult.assoc)
qed

lemma dec_le_val: "dec_le a b \<longleftrightarrow> dec_val a \<le> dec_val b"
proof -
  let ?e = "min (exponent a) (exponent b)"
  let ?A = "coefficient a * 10 ^ nat (exponent a - ?e)"
  let ?B = "coefficient b * 10 ^ nat (exponent b - ?e)"
  have pos: "(0::rat) < 10 powi ?e" by (simp add: power_int_def)
  have "dec_val a \<le> dec_val b \<longleftrightarrow> of_int ?A * 10 powi ?e \<le> (of_int ?B :: rat) * 10 powi ?e"
    using val_aligned [of ?e a] val_aligned [of ?e b] by simp
  also have "\<dots> \<longleftrightarrow> (of_int ?A :: rat) \<le> of_int ?B"
    using pos by (simp only: mult_le_cancel_right_pos)
  also have "\<dots> \<longleftrightarrow> ?A \<le> ?B" by (simp only: of_int_le_iff)
  finally show ?thesis by (simp add: dec_le_def Let_def)
qed

lemma dec_val_neg: "dec_val (dec_neg b) = - dec_val b"
  by (simp add: dec_val_def dec_neg_def)

lemma dec_add_coefficient_exact:
  assumes "\<bar>coefficient a * 10 ^ nat (exponent a - min (exponent a) (exponent b)) +
            coefficient b * 10 ^ nat (exponent b - min (exponent a) (exponent b))\<bar> < 10 ^ 28"
  shows "dec_val (dec_add a b) = dec_val a + dec_val b"
    and "exponent (dec_add a b) = min (exponent a) (exponent b)"
proof -
  let ?e = "min (exponent a) (exponent b)"
  let ?S = "coefficient a * 10 ^ nat (exponent a - ?e) + coefficient b * 10 ^ nat (exponent b - ?e)"
  have eq: "dec_add a b = Decimal ?S ?e"
    using dec_fix_small [of "Decimal ?S ?e"] assms by (simp add: dec_add_def Let_def)
  have "dec_val (Decimal ?S ?e) =
          of_int (coefficient a * 10 ^ nat (exponent a - ?e)) * 10 powi ?e +
          of_int (coefficient b * 10 ^ nat (exponent b - ?e)) * 10 powi ?e"
    by (simp only: dec_val_def decimal.sel of_int_add distrib_right)
  also have "\<dots> = dec_val a + dec_val b"
    using val_aligned [of ?e a] val_aligned [of ?e b] by simp
  finally show "dec_val (dec_add a b) = dec_val a + dec_val b" using eq by simp
  show "exponent (dec_add a b) = ?e" using eq by simp
qed

lemma dec_add_exact:
  assumes ea: "- 8 \<le> exponent a" and eb: "- 8 \<le> exponent b"
    and bound: "\<bar>dec_val a + dec_val b\<bar> < 10 ^ 20"
  shows "dec_val (dec_add a b) = dec_val a + dec_val b"
    and "- 8 \<le> exponent (dec_add a b)"
proof -
  let ?e = "min (exponent a) (exponent b)"
  let ?S = "coefficient a * 10 ^ nat (exponent a - ?e) + coefficient b * 10 ^ nat (exponent b - ?e)"
  have e: "- 8 \<le> ?e" using ea eb by simp
  have sum: "(of_int ?S :: rat) * 10 powi ?e = dec_val a + dec_val b"
    using val_aligned [of ?e a] val_aligned [of ?e b]
    by (simp only: of_int_add distrib_right)
  have pos: "(0::rat) < 10 powi ?e" by (simp add: power_int_def)
  have low: "(10::rat) powi (- 8) \<le> 10 powi ?e"
    using e by (intro power_int_increasing) simp_all
  have "\<bar>of_int ?S :: rat\<bar> * 10 powi (- 8) \<le> \<bar>of_int ?S\<bar> * 10 powi ?e"
    using low by (intro mult_left_mono) simp_all
  also have "\<dots> = \<bar>dec_val a + dec_val b\<bar>"
    using sum pos by (simp add: abs_mult flip: sum)
  also have "\<dots> < 10 ^ 20" by (rule bound)
  finally have "\<bar>of_int ?S :: rat\<bar> < 10 ^ 28" by (simp add: field_simps)
  then have "(of_int \<bar>?S\<bar> :: rat) < of_int (10 ^ 28)" by simp
  then have small: "\<bar>?S\<bar> < 10 ^ 28" by (simp only: of_int_less_iff)
  show "dec_val (dec_add a b) = dec_val a + dec_val b"
    using small by (rule dec_add_coefficient_exact)
  show "- 8 \<le> exponent (dec_add a b)"
    using dec_add_coefficient_exact(2) [OF small] e by simp
qed

lemma dec_mul_exact:
  assumes "\<bar>coefficient a * coefficient b\<bar> < 10 ^ 28"
  shows "dec_mul a b = Decimal (coefficient a * coefficient b) (exponent a + exponent b)"
    and "dec_val (dec_mul a b) = dec_val a * dec_val b"
proof -
  show eq: "dec_mul a b = Decimal (coefficient a * coefficient b) (exponent a + exponent b)"
    using dec_fix_small [of "Decimal (coefficient a * coefficient b) (exponent a + exponent b)"] assms
    by (simp add: dec_mul_def)
  show "dec_val (dec_mul a b) = dec_val a * dec_val b"
    unfolding eq by (simp add: dec_val_def power_int_add)
qed

text \<open>A coefficient of more than 28 digits is rounded to one of 28, of which none is
  lost: the result is at least \<open>10 ^ 27\<close> units of a larger exponent.\<close>

lemma ndigits_gt: "10 ^ k \<le> n \<Longrightarrow> k < ndigits n"
proof (induction n arbitrary: k rule: ndigits.induct)
  case (1 n)
  show ?case
  proof (cases k)
    case 0
    then show ?thesis by (simp add: ndigits.simps [of n])
  next
    case (Suc j)
    have big: "10 * 10 ^ j \<le> n" using "1.prems" Suc by simp
    have "(1::nat) \<le> 10 ^ j" by simp
    then have "(10::nat) * 1 \<le> 10 * 10 ^ j" by (rule mult_le_mono2)
    with big have n10: "\<not> n < 10" by linarith
    from big have "(10 * 10 ^ j) div 10 \<le> n div 10" by (rule div_le_mono)
    then have "10 ^ j \<le> n div 10" by simp
    then have "j < ndigits (n div 10)" using "1.IH" n10 by simp
    then show ?thesis using n10 Suc by (simp add: ndigits.simps [of n])
  qed
qed

lemma ndigits_lower: "0 < n \<Longrightarrow> 10 ^ (ndigits n - 1) \<le> n"
proof (induction n rule: ndigits.induct)
  case (1 n)
  show ?case
  proof (cases "n < 10")
    case True
    with "1.prems" show ?thesis by (simp add: ndigits.simps [of n])
  next
    case False
    then have "0 < n div 10" by (simp add: div_greater_zero_iff)
    then have "10 ^ (ndigits (n div 10) - 1) \<le> n div 10" using "1.IH" False by simp
    moreover have "0 < ndigits (n div 10)" by (simp add: ndigits.simps [of "n div 10"])
    ultimately have "10 ^ ndigits (n div 10) \<le> 10 * (n div 10)"
      by (cases "ndigits (n div 10)") simp_all
    also have "\<dots> \<le> n" by simp
    finally show ?thesis using False by (simp add: ndigits.simps [of n])
  qed
qed

lemma round_half_even_abs:
  "\<bar>c\<bar> div 10 ^ k \<le> \<bar>round_half_even c k\<bar>"
  by (simp add: round_half_even_def Let_def abs_if pos_imp_zdiv_nonneg_iff)

lemma dec_fix_big:
  assumes "10 ^ 28 \<le> \<bar>coefficient d\<bar>"
  shows "10 ^ 27 \<le> \<bar>coefficient (dec_fix d)\<bar>" and "exponent d < exponent (dec_fix d)"
proof -
  define m where "m = nat \<bar>coefficient d\<bar>"
  define n where "n = ndigits m"
  have m: "int m = \<bar>coefficient d\<bar>" by (simp add: m_def)
  have "(10::nat) ^ 28 \<le> m" using assms by (simp add: m_def le_nat_iff)
  then have n28: "28 < n" unfolding n_def by (rule ndigits_gt)
  have "0 < m" using \<open>10 ^ 28 \<le> m\<close> by simp
  then have low: "10 ^ (n - 1) \<le> m" unfolding n_def by (rule ndigits_lower)
  define k where "k = n - 28"
  have k: "0 < k" "n - 1 = 27 + k" using n28 by (simp_all add: k_def)
  define c where "c = round_half_even (coefficient d) k"
  have "(10::nat) ^ 27 * 10 ^ k \<le> m" using low k by (simp add: power_add)
  then have "(10 ^ 27 * 10 ^ k) div 10 ^ k \<le> m div 10 ^ k" by (rule div_le_mono)
  then have "(10::nat) ^ 27 \<le> m div 10 ^ k" by simp
  then have "int (10 ^ 27) \<le> int (m div 10 ^ k)" by (simp only: of_nat_le_iff)
  then have "(10::int) ^ 27 \<le> \<bar>coefficient d\<bar> div 10 ^ k"
    by (simp add: zdiv_int m)
  also have "\<dots> \<le> \<bar>c\<bar>" unfolding c_def by (rule round_half_even_abs)
  finally have c27: "10 ^ 27 \<le> \<bar>c\<bar>" .
  have fx: "dec_fix d =
      (if \<bar>c\<bar> = 10 ^ 28 then Decimal (c div 10) (exponent d + int k + 1)
       else Decimal c (exponent d + int k))"
    using n28 by (simp add: dec_fix_def Let_def prec_def m_def [symmetric] n_def [symmetric]
        k_def [symmetric] c_def [symmetric])
  show "exponent d < exponent (dec_fix d)" using k(1) by (simp add: fx)
  show "10 ^ 27 \<le> \<bar>coefficient (dec_fix d)\<bar>"
  proof (cases "\<bar>c\<bar> = 10 ^ 28")
    case True
    then have "c = 10 ^ 28 \<or> c = - (10 ^ 28)" by (simp add: abs_if split: if_splits)
    then show ?thesis using True by (auto simp: fx)
  next
    case False
    then show ?thesis using c27 by (simp add: fx)
  qed
qed

lemmas dec_eval = dec_mul_def dec_add_def dec_sub_def dec_neg_def dec_fix_def ndigits.simps
  round_half_even_def prec_def Let_def

section \<open>The escrow ledger\<close>

text \<open>What \<^verbatim>\<open>save()\<close> stores: a value of at most eight decimal places is stored as it
  is when it is below \<open>10 ^ 12\<close>, and refused otherwise.\<close>

lemma store_decimal_exact:
  assumes "- 8 \<le> exponent d"
  shows "store_decimal d =
           (if \<bar>dec_val d\<bar> < 10 ^ 12
            then Inr (Decimal (coefficient d * 10 ^ nat (exponent d + 8)) (- 8))
            else Inl InvalidOperation)"
    and "dec_val (Decimal (coefficient d * 10 ^ nat (exponent d + 8)) (- 8)) = dec_val d"
proof -
  let ?q = "Decimal (coefficient d * 10 ^ nat (exponent d + 8)) (- 8)"
  have q: "dec_quantize d 8 = ?q" using assms by (simp add: dec_quantize_def)
  have v: "of_int (coefficient ?q) * 10 powi (- 8) = dec_val d"
    using val_aligned [of "- 8" d] assms by simp
  then show "dec_val ?q = dec_val d" by (simp add: dec_val_def)
  from v have "(of_int (coefficient ?q) :: rat) = dec_val d * 10 ^ 8"
    by (simp add: power_int_minus field_simps)
  then have "\<bar>of_int (coefficient ?q) :: rat\<bar> = \<bar>dec_val d\<bar> * 10 ^ 8"
    by (simp only: abs_mult) simp
  then have "\<bar>dec_val d\<bar> < 10 ^ 12 \<longleftrightarrow> \<bar>of_int (coefficient ?q) :: rat\<bar> < 10 ^ 20"
    by (simp only:) simp
  also have "\<dots> \<longleftrightarrow> (of_int \<bar>coefficient ?q\<bar> :: rat) < of_int (10 ^ 20)" by simp
  also have "\<dots> \<longleftrightarrow> \<bar>coefficient ?q\<bar> < 10 ^ 20" by (simp only: of_int_less_iff)
  finally show "store_decimal d =
           (if \<bar>dec_val d\<bar> < 10 ^ 12 then Inr ?q else Inl InvalidOperation)"
    by (simp add: store_decimal_def q Let_def)
qed

lemma store_decimal_value:
  assumes "- 8 \<le> exponent d" "store_decimal d = Inr q"
  shows "dec_val q = dec_val d" "field_value q"
proof -
  note s = store_decimal_exact [OF assms(1)]
  from assms(2) s(1) have small: "\<bar>dec_val d\<bar> < 10 ^ 12"
    and q: "q = Decimal (coefficient d * 10 ^ nat (exponent d + 8)) (- 8)"
    by (auto split: if_splits)
  show "dec_val q = dec_val d" using s(2) q by simp
  then show "field_value q" using small q by (simp add: field_value_def)
qed

lemma store_decimal_huge:
  assumes "- 8 \<le> exponent d" "10 ^ 27 \<le> \<bar>coefficient d\<bar>"
  shows "store_decimal d = Inl InvalidOperation"
proof -
  have "(1::int) \<le> 10 ^ nat (exponent d + 8)" by simp
  then have "\<bar>coefficient d\<bar> * 1 \<le> \<bar>coefficient d\<bar> * 10 ^ nat (exponent d + 8)"
    by (intro mult_left_mono) simp_all
  with assms(2) have "10 ^ 27 \<le> \<bar>coefficient d * 10 ^ nat (exponent d + 8)\<bar>"
    by (simp add: abs_mult)
  then have "\<not> \<bar>coefficient d * 10 ^ nat (exponent d + 8)\<bar> < 10 ^ 20" by simp
  then show ?thesis using assms(1) by (simp add: store_decimal_def dec_quantize_def Let_def)
qed

lemma store_add:
  assumes ea: "- 8 \<le> exponent a" and eb: "- 8 \<le> exponent b"
    and st: "store_decimal (dec_add a b) = Inr q"
  shows "dec_val q = dec_val a + dec_val b" "field_value q"
proof -
  let ?e = "min (exponent a) (exponent b)"
  let ?S = "coefficient a * 10 ^ nat (exponent a - ?e) + coefficient b * 10 ^ nat (exponent b - ?e)"
  have e: "- 8 \<le> ?e" using ea eb by simp
  have small: "\<bar>?S\<bar> < 10 ^ 28"
  proof (rule ccontr)
    assume "\<not> \<bar>?S\<bar> < 10 ^ 28"
    then have "10 ^ 28 \<le> \<bar>coefficient (Decimal ?S ?e)\<bar>" by simp
    note b = dec_fix_big [OF this]
    have ad: "dec_add a b = dec_fix (Decimal ?S ?e)" by (simp add: dec_add_def Let_def)
    have "?e < exponent (dec_fix (Decimal ?S ?e))" using b(2) by simp
    with e have "- 8 < exponent (dec_fix (Decimal ?S ?e))" by (rule le_less_trans)
    then have "- 8 \<le> exponent (dec_add a b)" unfolding ad by (rule less_imp_le)
    moreover have "10 ^ 27 \<le> \<bar>coefficient (dec_add a b)\<bar>" unfolding ad by (rule b(1))
    ultimately have "store_decimal (dec_add a b) = Inl InvalidOperation" by (rule store_decimal_huge)
    with st show False by simp
  qed
  note x = dec_add_coefficient_exact [OF small]
  have "- 8 \<le> exponent (dec_add a b)" using x(2) e by simp
  note v = store_decimal_value [OF this st]
  show "dec_val q = dec_val a + dec_val b" using v(1) x(1) by simp
  show "field_value q" by (rule v(2))
qed

lemma store_sub:
  assumes "- 8 \<le> exponent a" "- 8 \<le> exponent b" "store_decimal (dec_sub a b) = Inr q"
  shows "dec_val q = dec_val a - dec_val b" "field_value q"
proof -
  have "- 8 \<le> exponent (dec_neg b)" using assms(2) by (simp add: dec_neg_def)
  note s = store_add [OF assms(1) this assms(3) [unfolded dec_sub_def]]
  show "dec_val q = dec_val a - dec_val b" using s(1) by (simp add: dec_val_neg)
  show "field_value q" by (rule s(2))
qed

lemma store_add_fits:
  assumes "- 8 \<le> exponent a" "- 8 \<le> exponent b" "\<bar>dec_val a + dec_val b\<bar> < 10 ^ 12"
  obtains q where "store_decimal (dec_add a b) = Inr q"
proof -
  have "\<bar>dec_val a + dec_val b\<bar> < 10 ^ 20" using assms(3) by simp
  note x = dec_add_exact [OF assms(1,2) this]
  from store_decimal_exact(1) [OF x(2)] assms(3) x(1) that show thesis by simp
qed

lemma store_add_overflow:
  assumes "- 8 \<le> exponent a" "- 8 \<le> exponent b" "10 ^ 12 \<le> \<bar>dec_val a + dec_val b\<bar>"
  shows "store_decimal (dec_add a b) = Inl InvalidOperation"
proof (cases "store_decimal (dec_add a b)")
  case (Inl e)
  then show ?thesis by (simp add: store_decimal_def Let_def split: if_splits)
next
  case (Inr q)
  from store_add [OF assms(1,2) Inr] assms(3) show ?thesis by (simp add: field_value_def)
qed

lemma money_nonneg: "money x \<Longrightarrow> 0 \<le> dec_val x"
  by (simp add: money_def dec_val_def power_int_def)

lemma store_decimal_error: "store_decimal d = Inl e \<Longrightarrow> e = InvalidOperation"
  by (simp add: store_decimal_def Let_def split: if_splits)

lemma save_escrow_account_Inr:
  assumes "save_escrow_account s = Inr row"
  shows "store_decimal (total_balance s) = Inr (total_balance row)"
    "store_decimal (available_balance s) = Inr (available_balance row)"
    "store_decimal (reserved_balance s) = Inr (reserved_balance row)"
  using assms by (auto simp: save_escrow_account_def split: sum.splits)

lemma reserve_funds_sound:
  assumes "balanced a" "stored_row a" "money x"
  shows "balanced (row_after a (reserve_funds a x)) \<and> stored_row (row_after a (reserve_funds a x))"
proof (cases "reserve_funds a x")
  case (Inl e)
  then show ?thesis using assms by (simp add: row_after_def)
next
  case (Inr r)
  show ?thesis
  proof (cases "dec_le x (available_balance a)")
    case False
    then show ?thesis using assms by (simp add: reserve_funds_def row_after_def)
  next
    case True
    let ?s = "a\<lparr>available_balance := dec_sub (available_balance a) x,
                  reserved_balance := dec_add (reserved_balance a) x\<rparr>"
    from Inr True obtain row where sv: "save_escrow_account ?s = Inr row" and r: "r = (True, row)"
      by (auto simp: reserve_funds_def split: sum.splits)
    note st = save_escrow_account_Inr [OF sv]
    have ex: "- 8 \<le> exponent (total_balance a)" "- 8 \<le> exponent (available_balance a)"
      "- 8 \<le> exponent (reserved_balance a)" "- 8 \<le> exponent x"
      using assms(2,3) by (simp_all add: stored_row_def field_value_def money_def)
    have t: "dec_val (total_balance row) = dec_val (total_balance a)"
      "field_value (total_balance row)"
      using store_decimal_value [OF ex(1), of "total_balance row"] st(1) by simp_all
    have av: "dec_val (available_balance row) = dec_val (available_balance a) - dec_val x"
      "field_value (available_balance row)"
      using store_sub [OF ex(2) ex(4), of "available_balance row"] st(2) by simp_all
    have re: "dec_val (reserved_balance row) = dec_val (reserved_balance a) + dec_val x"
      "field_value (reserved_balance row)"
      using store_add [OF ex(3) ex(4), of "reserved_balance row"] st(3) by simp_all
    have le: "dec_val x \<le> dec_val (available_balance a)" using True by (simp add: dec_le_val)
    have x0: "0 \<le> dec_val x" using assms(3) by (rule money_nonneg)
    have "balanced row" using assms(1) t(1) av(1) re(1) le x0 by (simp add: balanced_def)
    moreover have "stored_row row" using t(2) av(2) re(2) by (simp add: stored_row_def)
    ultimately show ?thesis using Inr r by (simp add: row_after_def)
  qed
qed

lemma release_funds_sound:
  assumes "balanced a" "stored_row a" "money x"
  shows "balanced (row_after a (release_funds a x)) \<and> stored_row (row_after a (release_funds a x))"
proof (cases "release_funds a x")
  case (Inl e)
  then show ?thesis using assms by (simp add: row_after_def)
next
  case (Inr r)
  show ?thesis
  proof (cases "dec_le x (reserved_balance a)")
    case False
    then show ?thesis using assms by (simp add: release_funds_def row_after_def)
  next
    case True
    let ?s = "a\<lparr>reserved_balance := dec_sub (reserved_balance a) x,
                  total_balance := dec_sub (total_balance a) x\<rparr>"
    from Inr True obtain row where sv: "save_escrow_account ?s = Inr row" and r: "r = (True, row)"
      by (auto simp: release_funds_def split: sum.splits)
    note st = save_escrow_account_Inr [OF sv]
    have ex: "- 8 \<le> exponent (total_balance a)" "- 8 \<le> exponent (available_balance a)"
      "- 8 \<le> exponent (reserved_balance a)" "- 8 \<le> exponent x"
      using assms(2,3) by (simp_all add: stored_row_def field_value_def money_def)
    have t: "dec_val (total_balance row) = dec_val (total_balance a) - dec_val x"
      "field_value (total_balance row)"
      using store_sub [OF ex(1) ex(4), of "total_balance row"] st(1) by simp_all
    have av: "dec_val (available_balance row) = dec_val (available_balance a)"
      "field_value (available_balance row)"
      using store_decimal_value [OF ex(2), of "available_balance row"] st(2) by simp_all
    have re: "dec_val (reserved_balance row) = dec_val (reserved_balance a) - dec_val x"
      "field_value (reserved_balance row)"
      using store_sub [OF ex(3) ex(4), of "reserved_balance row"] st(3) by simp_all
    have le: "dec_val x \<le> dec_val (reserved_balance a)" using True by (simp add: dec_le_val)
    have x0: "0 \<le> dec_val x" using assms(3) by (rule money_nonneg)
    have "balanced row" using assms(1) t(1) av(1) re(1) le x0 by (simp add: balanced_def)
    moreover have "stored_row row" using t(2) av(2) re(2) by (simp add: stored_row_def)
    ultimately show ?thesis using Inr r by (simp add: row_after_def)
  qed
qed

lemma return_funds_sound:
  assumes "balanced a" "stored_row a" "money x"
  shows "balanced (row_after a (return_funds a x)) \<and> stored_row (row_after a (return_funds a x))"
proof (cases "return_funds a x")
  case (Inl e)
  then show ?thesis using assms by (simp add: row_after_def)
next
  case (Inr r)
  show ?thesis
  proof (cases "dec_le x (reserved_balance a)")
    case False
    then show ?thesis using assms by (simp add: return_funds_def row_after_def)
  next
    case True
    let ?s = "a\<lparr>reserved_balance := dec_sub (reserved_balance a) x,
                  available_balance := dec_add (available_balance a) x\<rparr>"
    from Inr True obtain row where sv: "save_escrow_account ?s = Inr row" and r: "r = (True, row)"
      by (auto simp: return_funds_def split: sum.splits)
    note st = save_escrow_account_Inr [OF sv]
    have ex: "- 8 \<le> exponent (total_balance a)" "- 8 \<le> exponent (available_balance a)"
      "- 8 \<le> exponent (reserved_balance a)" "- 8 \<le> exponent x"
      using assms(2,3) by (simp_all add: stored_row_def field_value_def money_def)
    have t: "dec_val (total_balance row) = dec_val (total_balance a)"
      "field_value (total_balance row)"
      using store_decimal_value [OF ex(1), of "total_balance row"] st(1) by simp_all
    have av: "dec_val (available_balance row) = dec_val (available_balance a) + dec_val x"
      "field_value (available_balance row)"
      using store_add [OF ex(2) ex(4), of "available_balance row"] st(2) by simp_all
    have re: "dec_val (reserved_balance row) = dec_val (reserved_balance a) - dec_val x"
      "field_value (reserved_balance row)"
      using store_sub [OF ex(3) ex(4), of "reserved_balance row"] st(3) by simp_all
    have le: "dec_val x \<le> dec_val (reserved_balance a)" using True by (simp add: dec_le_val)
    have x0: "0 \<le> dec_val x" using assms(3) by (rule money_nonneg)
    have "balanced row" using assms(1) t(1) av(1) re(1) le x0 by (simp add: balanced_def)
    moreover have "stored_row row" using t(2) av(2) re(2) by (simp add: stored_row_def)
    ultimately show ?thesis using Inr r by (simp add: row_after_def)
  qed
qed

lemma move_to_escrow_sound:
  assumes "balanced a" "stored_row a" "money x"
  shows "balanced (snd (move_to_escrow a x)) \<and> stored_row (snd (move_to_escrow a x))"
proof -
  let ?s = "a\<lparr>total_balance := dec_add (total_balance a) x,
                available_balance := dec_add (available_balance a) x\<rparr>"
  show ?thesis
  proof (cases "save_escrow_account ?s")
    case (Inl e)
    then show ?thesis using assms by (simp add: move_to_escrow_def)
  next
    case (Inr row)
    note st = save_escrow_account_Inr [OF Inr]
    have ex: "- 8 \<le> exponent (total_balance a)" "- 8 \<le> exponent (available_balance a)"
      "- 8 \<le> exponent (reserved_balance a)" "- 8 \<le> exponent x"
      using assms(2,3) by (simp_all add: stored_row_def field_value_def money_def)
    have t: "dec_val (total_balance row) = dec_val (total_balance a) + dec_val x"
      "field_value (total_balance row)"
      using store_add [OF ex(1) ex(4), of "total_balance row"] st(1) by simp_all
    have av: "dec_val (available_balance row) = dec_val (available_balance a) + dec_val x"
      "field_value (available_balance row)"
      using store_add [OF ex(2) ex(4), of "available_balance row"] st(2) by simp_all
    have re: "dec_val (reserved_balance row) = dec_val (reserved_balance a)"
      "field_value (reserved_balance row)"
      using store_decimal_value [OF ex(3), of "reserved_balance row"] st(3) by simp_all
    have x0: "0 \<le> dec_val x" using assms(3) by (rule money_nonneg)
    have "balanced row" using assms(1) t(1) av(1) re(1) x0 by (simp add: balanced_def)
    moreover have "stored_row row" using t(2) av(2) re(2) by (simp add: stored_row_def)
    ultimately show ?thesis using Inr by (simp add: move_to_escrow_def)
  qed
qed

lemma escrow_run_sound:
  assumes "balanced a" "stored_row a" "list_all (\<lambda>op. money (op_amount op)) ops"
  shows "balanced (foldl escrow_step a ops) \<and> stored_row (foldl escrow_step a ops)"
  using assms
proof (induction ops arbitrary: a)
  case Nil
  then show ?case by simp
next
  case (Cons op ops)
  have rest: "list_all (\<lambda>op. money (op_amount op)) ops" and m: "money (op_amount op)"
    using Cons.prems(3) by simp_all
  have "balanced (escrow_step a op) \<and> stored_row (escrow_step a op)"
  proof (cases op)
    case (Reserve x)
    then show ?thesis using reserve_funds_sound [of a x] Cons.prems m by simp
  next
    case (Release x)
    then show ?thesis using release_funds_sound [of a x] Cons.prems m by simp
  next
    case (Return x)
    then show ?thesis using return_funds_sound [of a x] Cons.prems m by simp
  next
    case (Deposit x)
    then show ?thesis using move_to_escrow_sound [of a x] Cons.prems m by simp
  qed
  then show ?case using Cons.IH [of "escrow_step a op"] rest by simp
qed

text \<open>
  C2, as the code has it.  An account whose balances are values of their columns, add
  up (\<open>total = available + reserved\<close>) and are not negative keeps all of it through
  every sequence of \<^verbatim>\<open>reserve_funds\<close>, \<^verbatim>\<open>release_funds\<close>, \<^verbatim>\<open>return_funds\<close> and deposits
  whose amounts are not negative and have at most eight decimal places.  The amounts
  are not bounded: a call whose result does not fit a column stores nothing.
\<close>

theorem escrow_balance_invariant:
  assumes "balanced a" "stored_row a" "list_all (\<lambda>op. money (op_amount op)) ops"
  shows "dec_val (total_balance (foldl escrow_step a ops)) =
           dec_val (available_balance (foldl escrow_step a ops)) +
           dec_val (reserved_balance (foldl escrow_step a ops))
         \<and> 0 \<le> dec_val (total_balance (foldl escrow_step a ops))
         \<and> 0 \<le> dec_val (available_balance (foldl escrow_step a ops))
         \<and> 0 \<le> dec_val (reserved_balance (foldl escrow_step a ops))
         \<and> stored_row (foldl escrow_step a ops)"
  using escrow_run_sound [OF assms] by (simp add: balanced_def)

lemmas escrow_eval = reserve_funds_def release_funds_def return_funds_def move_to_escrow_def
  save_escrow_account_def store_decimal_def dec_quantize_def row_after_def dec_le_def

theorem escrow_balance_invariant_witness:
  "balanced fifty \<and> stored_row fifty
   \<and> list_all (\<lambda>op. money (op_amount op))
        [Reserve (Decimal 30 0), Reserve (Decimal 30 0), Release (Decimal 10 0),
         Return (Decimal 5 0), Deposit (Decimal 2550 (- 2)), Deposit (Decimal 1 12)]
   \<and> foldl escrow_step fifty
         [Reserve (Decimal 30 0), Reserve (Decimal 30 0), Release (Decimal 10 0),
          Return (Decimal 5 0), Deposit (Decimal 2550 (- 2)), Deposit (Decimal 1 12)]
       = \<lparr>total_balance = Decimal 6550000000 (- 8), available_balance = Decimal 5050000000 (- 8),
          reserved_balance = Decimal 1500000000 (- 8)\<rparr>
   \<and> dec_val (Decimal 6550000000 (- 8)) =
       dec_val (Decimal 5050000000 (- 8)) + dec_val (Decimal 1500000000 (- 8))"
proof -
  let ?ops = "[Reserve (Decimal 30 0), Reserve (Decimal 30 0), Release (Decimal 10 0),
               Return (Decimal 5 0), Deposit (Decimal 2550 (- 2)), Deposit (Decimal 1 12)]"
  have h1: "balanced fifty" and h2: "stored_row fifty"
    by (simp_all add: balanced_def stored_row_def field_value_def fifty_def dec_val_def)
  have h3: "list_all (\<lambda>op. money (op_amount op)) ?ops"
    by (simp add: money_def)
  have run: "foldl escrow_step fifty ?ops
       = \<lparr>total_balance = Decimal 6550000000 (- 8), available_balance = Decimal 5050000000 (- 8),
          reserved_balance = Decimal 1500000000 (- 8)\<rparr>"
    by (simp add: fifty_def escrow_eval dec_eval)
  from escrow_balance_invariant [OF h1 h2 h3] h1 h2 h3 run
  show ?thesis by simp
qed

text \<open>
  C2 as stated, for every amount that is not negative, fails: an amount with a ninth
  decimal place is rounded by each column on its own.  Reserving \<^verbatim>\<open>5E-9\<close> on an account
  holding \<^verbatim>\<open>1E-8\<close> returns \<^verbatim>\<open>True\<close> and stores an available balance of 0 and a reserved
  balance of 0 beside the total of \<^verbatim>\<open>1E-8\<close>.
\<close>

theorem escrow_balance_lost_to_rounding:
  "balanced one_unit \<and> stored_row one_unit \<and> 0 \<le> dec_val (Decimal 5 (- 9))
   \<and> reserve_funds one_unit (Decimal 5 (- 9)) =
       Inr (True, \<lparr>total_balance = Decimal 1 (- 8), available_balance = Decimal 0 (- 8),
                   reserved_balance = Decimal 0 (- 8)\<rparr>)
   \<and> \<not> balanced (foldl escrow_step one_unit [Reserve (Decimal 5 (- 9))])"
proof -
  have r: "reserve_funds one_unit (Decimal 5 (- 9)) =
       Inr (True, \<lparr>total_balance = Decimal 1 (- 8), available_balance = Decimal 0 (- 8),
                   reserved_balance = Decimal 0 (- 8)\<rparr>)"
    by (simp add: one_unit_def escrow_eval dec_eval)
  have "balanced one_unit" "stored_row one_unit" "0 \<le> dec_val (Decimal 5 (- 9))"
    by (simp_all add: balanced_def stored_row_def field_value_def one_unit_def dec_val_def)
  moreover have "\<not> balanced (foldl escrow_step one_unit [Reserve (Decimal 5 (- 9))])"
    by (simp add: r row_after_def balanced_def dec_val_def)
  ultimately show ?thesis using r by simp
qed

lemma save_escrow_account_fits:
  assumes "store_decimal (total_balance s) = Inr t" "store_decimal (available_balance s) = Inr v"
    "store_decimal (reserved_balance s) = Inr r"
  shows "save_escrow_account s =
           Inr \<lparr>total_balance = t, available_balance = v, reserved_balance = r\<rparr>"
  using assms by (simp add: save_escrow_account_def)

lemma save_escrow_account_overflow:
  assumes "store_decimal (reserved_balance s) = Inl InvalidOperation"
  shows "save_escrow_account s = Inl InvalidOperation"
  using assms
  by (auto simp: save_escrow_account_def split: sum.splits dest: store_decimal_error)

text \<open>
  C8, as the code has it.  For an account whose balances are values of their columns and
  an amount that is not negative and has at most eight decimal places, \<^verbatim>\<open>reserve_funds\<close>
  ends in one of three ways.  When the available balance is less than the amount it
  returns \<^verbatim>\<open>False\<close>, raising nothing, and the account is unchanged.  Otherwise, when the
  reserved balance with the amount fits its column, it returns \<^verbatim>\<open>True\<close> and the stored
  available balance is down by exactly the amount, the reserved balance up by exactly
  the amount and the total the same.  Otherwise \<^verbatim>\<open>save()\<close> raises
  \<^verbatim>\<open>decimal.InvalidOperation\<close> and nothing is stored.
\<close>

theorem reserve_funds_moves_or_fails:
  assumes "stored_row a" "money x"
  shows "(dec_val (available_balance a) < dec_val x \<longrightarrow> reserve_funds a x = Inr (False, a))
    \<and> (dec_val x \<le> dec_val (available_balance a) \<and>
        dec_val (reserved_balance a) + dec_val x < 10 ^ 12 \<longrightarrow>
          (\<exists>a'. reserve_funds a x = Inr (True, a')
             \<and> dec_val (available_balance a') = dec_val (available_balance a) - dec_val x
             \<and> dec_val (reserved_balance a') = dec_val (reserved_balance a) + dec_val x
             \<and> dec_val (total_balance a') = dec_val (total_balance a)
             \<and> stored_row a'))
    \<and> (dec_val x \<le> dec_val (available_balance a) \<and>
        10 ^ 12 \<le> dec_val (reserved_balance a) + dec_val x \<longrightarrow>
          reserve_funds a x = Inl InvalidOperation)"
proof (intro conjI impI)
  assume "dec_val (available_balance a) < dec_val x"
  then show "reserve_funds a x = Inr (False, a)"
    by (simp add: reserve_funds_def dec_le_val)
next
  have x0: "0 \<le> dec_val x" using assms(2) by (rule money_nonneg)
  have ex: "- 8 \<le> exponent (total_balance a)" "- 8 \<le> exponent (available_balance a)"
    "- 8 \<le> exponent (reserved_balance a)" "- 8 \<le> exponent x"
    using assms by (simp_all add: stored_row_def field_value_def money_def)
  have fv: "\<bar>dec_val (total_balance a)\<bar> < 10 ^ 12" "\<bar>dec_val (available_balance a)\<bar> < 10 ^ 12"
    "\<bar>dec_val (reserved_balance a)\<bar> < 10 ^ 12"
    using assms(1) by (simp_all add: stored_row_def field_value_def)
  let ?s = "a\<lparr>available_balance := dec_sub (available_balance a) x,
                reserved_balance := dec_add (reserved_balance a) x\<rparr>"
  {
    assume h: "dec_val x \<le> dec_val (available_balance a) \<and>
               dec_val (reserved_balance a) + dec_val x < 10 ^ 12"
    then have le: "dec_le x (available_balance a)" by (simp add: dec_le_val)
    have nx: "- 8 \<le> exponent (dec_neg x)" using ex(4) by (simp add: dec_neg_def)
    have "\<bar>dec_val (available_balance a) + dec_val (dec_neg x)\<bar> < 10 ^ 12"
      using h x0 fv(2) by (simp add: dec_val_neg abs_if split: if_splits)
    from store_add_fits [OF ex(2) nx this]
    obtain v where v: "store_decimal (dec_sub (available_balance a) x) = Inr v"
      by (auto simp: dec_sub_def)
    have "\<bar>dec_val (reserved_balance a) + dec_val x\<bar> < 10 ^ 12"
      using h x0 fv(3) by (simp add: abs_if split: if_splits)
    from store_add_fits [OF ex(3) ex(4) this]
    obtain r where r: "store_decimal (dec_add (reserved_balance a) x) = Inr r" by auto
    from store_decimal_exact(1) [OF ex(1)] fv(1)
    obtain t where t: "store_decimal (total_balance a) = Inr t" by simp
    let ?row = "\<lparr>total_balance = t, available_balance = v, reserved_balance = r\<rparr>"
    have sv: "save_escrow_account ?s = Inr ?row"
      using t v r by (intro save_escrow_account_fits) simp_all
    have res: "reserve_funds a x = Inr (True, ?row)"
      using le sv by (simp add: reserve_funds_def)
    note tv = store_decimal_value [OF ex(1) t]
    note vv = store_sub [OF ex(2) ex(4) v]
    note rv = store_add [OF ex(3) ex(4) r]
    have "reserve_funds a x = Inr (True, ?row)
             \<and> dec_val (available_balance ?row) = dec_val (available_balance a) - dec_val x
             \<and> dec_val (reserved_balance ?row) = dec_val (reserved_balance a) + dec_val x
             \<and> dec_val (total_balance ?row) = dec_val (total_balance a)
             \<and> stored_row ?row"
      using res tv vv rv by (simp add: stored_row_def)
    then show "\<exists>a'. reserve_funds a x = Inr (True, a')
             \<and> dec_val (available_balance a') = dec_val (available_balance a) - dec_val x
             \<and> dec_val (reserved_balance a') = dec_val (reserved_balance a) + dec_val x
             \<and> dec_val (total_balance a') = dec_val (total_balance a)
             \<and> stored_row a'" ..
  }
  {
    assume h: "dec_val x \<le> dec_val (available_balance a) \<and>
               10 ^ 12 \<le> dec_val (reserved_balance a) + dec_val x"
    then have le: "dec_le x (available_balance a)" by (simp add: dec_le_val)
    have "10 ^ 12 \<le> \<bar>dec_val (reserved_balance a) + dec_val x\<bar>" using h by simp
    then have "store_decimal (dec_add (reserved_balance a) x) = Inl InvalidOperation"
      by (rule store_add_overflow [OF ex(3) ex(4)])
    then have "save_escrow_account ?s = Inl InvalidOperation"
      by (intro save_escrow_account_overflow) simp
    then show "reserve_funds a x = Inl InvalidOperation"
      using le by (simp add: reserve_funds_def)
  }
qed

theorem reserve_funds_moves_or_fails_witness:
  "stored_row fifty \<and> money (Decimal 30 0)
   \<and> reserve_funds fifty (Decimal 30 0) =
       Inr (True, \<lparr>total_balance = Decimal 5000000000 (- 8),
                   available_balance = Decimal 2000000000 (- 8),
                   reserved_balance = Decimal 3000000000 (- 8)\<rparr>)
   \<and> dec_val (Decimal 2000000000 (- 8)) = 20 \<and> dec_val (Decimal 3000000000 (- 8)) = 30
   \<and> reserve_funds \<lparr>total_balance = Decimal 5000000000 (- 8),
                     available_balance = Decimal 2000000000 (- 8),
                     reserved_balance = Decimal 3000000000 (- 8)\<rparr> (Decimal 30 0) =
       Inr (False, \<lparr>total_balance = Decimal 5000000000 (- 8),
                    available_balance = Decimal 2000000000 (- 8),
                    reserved_balance = Decimal 3000000000 (- 8)\<rparr>)
   \<and> stored_row crowded
   \<and> reserve_funds crowded (Decimal 200000000000 0) = Inl InvalidOperation"
proof -
  let ?after = "\<lparr>total_balance = Decimal 5000000000 (- 8),
                 available_balance = Decimal 2000000000 (- 8),
                 reserved_balance = Decimal 3000000000 (- 8)\<rparr>"
  have h: "stored_row fifty" "money (Decimal 30 0)" "stored_row ?after" "stored_row crowded"
    "money (Decimal 200000000000 0)"
    by (simp_all add: stored_row_def field_value_def money_def fifty_def crowded_def dec_val_def)
  have v: "dec_val (Decimal 2000000000 (- 8)) = 20" "dec_val (Decimal 3000000000 (- 8)) = 30"
    "dec_val (available_balance ?after) < dec_val (Decimal 30 0)"
    "dec_val (Decimal 200000000000 0) \<le> dec_val (available_balance crowded) \<and>
     10 ^ 12 \<le> dec_val (reserved_balance crowded) + dec_val (Decimal 200000000000 0)"
    by (simp_all add: crowded_def dec_val_def)
  have first: "reserve_funds fifty (Decimal 30 0) = Inr (True, ?after)"
    by (simp add: fifty_def escrow_eval dec_eval)
  from reserve_funds_moves_or_fails [OF h(3) h(2)] v(3)
  have second: "reserve_funds ?after (Decimal 30 0) = Inr (False, ?after)"
    by blast
  from reserve_funds_moves_or_fails [OF h(4) h(5)] v(4)
  have third: "reserve_funds crowded (Decimal 200000000000 0) = Inl InvalidOperation"
    by blast
  from h first v(1,2) second third show ?thesis by simp
qed

text \<open>
  C8 as stated fails twice.  No \<^verbatim>\<open>InsufficientFundsError\<close> exists: a reservation that the
  available balance does not cover returns \<^verbatim>\<open>False\<close>.  And an amount with a ninth decimal
  place is not moved exactly: reserving \<^verbatim>\<open>5E-9\<close> of an available \<^verbatim>\<open>1E-8\<close> returns \<^verbatim>\<open>True\<close>
  and stores an available balance of 0 and a reserved balance of 0.
\<close>

theorem reserve_funds_inexact_or_false:
  "reserve_funds fifty (Decimal 60 0) = Inr (False, fifty)
   \<and> 0 \<le> dec_val (Decimal 5 (- 9))
   \<and> dec_val (Decimal 5 (- 9)) \<le> dec_val (available_balance one_unit)
   \<and> reserve_funds one_unit (Decimal 5 (- 9)) =
       Inr (True, \<lparr>total_balance = Decimal 1 (- 8), available_balance = Decimal 0 (- 8),
                   reserved_balance = Decimal 0 (- 8)\<rparr>)
   \<and> dec_val (Decimal 0 (- 8)) \<noteq> dec_val (available_balance one_unit) - dec_val (Decimal 5 (- 9))
   \<and> dec_val (Decimal 0 (- 8)) \<noteq> dec_val (reserved_balance one_unit) + dec_val (Decimal 5 (- 9))"
proof -
  have "reserve_funds fifty (Decimal 60 0) = Inr (False, fifty)"
    by (simp add: fifty_def reserve_funds_def dec_le_def)
  moreover have "reserve_funds one_unit (Decimal 5 (- 9)) =
       Inr (True, \<lparr>total_balance = Decimal 1 (- 8), available_balance = Decimal 0 (- 8),
                   reserved_balance = Decimal 0 (- 8)\<rparr>)"
    by (simp add: one_unit_def escrow_eval dec_eval)
  moreover have "0 \<le> dec_val (Decimal 5 (- 9))"
    "dec_val (Decimal 5 (- 9)) \<le> dec_val (available_balance one_unit)"
    "dec_val (Decimal 0 (- 8)) \<noteq> dec_val (available_balance one_unit) - dec_val (Decimal 5 (- 9))"
    "dec_val (Decimal 0 (- 8)) \<noteq> dec_val (reserved_balance one_unit) + dec_val (Decimal 5 (- 9))"
    by (simp_all add: one_unit_def dec_val_def)
  ultimately show ?thesis by simp
qed

section \<open>Commission: the precedence of rates\<close>

lemma currency_only_filter:
  "find (\<lambda>s. setting_currency s = c \<and> setting_provider s = p \<and> is_active s) settings =
   find (\<lambda>s. setting_provider s = p \<and> setting_currency s = c \<and> is_active s) settings"
  by (rule arg_cong [where f = "\<lambda>P. find P settings"]) auto

lemma get_commission_rate_waterfall:
  "get_commission_rate default_rate providers settings (Some c) pid =
     waterfall nonzero_rate default_rate providers settings c pid"
  by (auto simp: get_commission_rate_def waterfall_def resolve_provider_def scoped_setting_def
        global_setting_def nonzero_rate_def currency_only_filter Let_def
      split: option.splits)

lemma provider_currency_wins:
  assumes "resolve_provider providers pid = Some p"
    and "find (\<lambda>s. setting_provider s = Some (provider_id p) \<and>
                   setting_currency s = Some (currency_code c) \<and> is_active s) settings = Some s"
  shows "get_commission_rate default_rate providers settings (Some c) pid = rate s"
  using assms
  by (simp add: get_commission_rate_waterfall waterfall_def scoped_setting_def)

text \<open>
  C5, as the code has it.  The rate is the first match of: the active setting for the
  provider and the currency; the active setting for the provider alone; the provider's
  own rate field when it is not zero; the active setting for the currency alone; the
  active global setting; the default.  The provider counts only when a provider with the
  given id exists and is active.  In particular an active provider with an active
  setting for provider and currency gets that setting's rate, whatever the other
  settings, the provider's field and the default are.
\<close>

theorem commission_rate_precedence:
  "get_commission_rate default_rate providers settings (Some c) pid =
     waterfall nonzero_rate default_rate providers settings c pid
   \<and> (\<forall>p s. resolve_provider providers pid = Some p \<and>
          find (\<lambda>s. setting_provider s = Some (provider_id p) \<and>
                     setting_currency s = Some (currency_code c) \<and> is_active s) settings = Some s
          \<longrightarrow> get_commission_rate default_rate providers settings (Some c) pid = rate s)"
proof (intro conjI allI impI)
  show "get_commission_rate default_rate providers settings (Some c) pid =
          waterfall nonzero_rate default_rate providers settings c pid"
    by (rule get_commission_rate_waterfall)
next
  fix p s
  assume "resolve_provider providers pid = Some p \<and>
          find (\<lambda>s. setting_provider s = Some (provider_id p) \<and>
                     setting_currency s = Some (currency_code c) \<and> is_active s) settings = Some s"
  then show "get_commission_rate default_rate providers settings (Some c) pid = rate s"
    using provider_currency_wins [of providers pid p c settings s default_rate] by simp
qed

theorem commission_rate_precedence_witness:
  "resolve_provider [vpn_provider] (Some ''P1'') = Some vpn_provider
   \<and> find (\<lambda>s. setting_provider s = Some (provider_id vpn_provider) \<and>
                setting_currency s = Some (currency_code usd) \<and> is_active s) all_scopes
       = Some \<lparr>setting_currency = Some ''USD'', setting_provider = Some ''P1'',
               rate = Decimal 100 (- 4), is_active = True, is_global = False\<rparr>
   \<and> get_commission_rate (Decimal 5 (- 2)) [vpn_provider] all_scopes (Some usd) (Some ''P1'')
       = Decimal 100 (- 4)
   \<and> waterfall nonzero_rate (Decimal 5 (- 2)) [vpn_provider] all_scopes usd (Some ''P1'')
       = Decimal 100 (- 4)"
proof -
  have a: "resolve_provider [vpn_provider] (Some ''P1'') = Some vpn_provider"
    by (simp add: resolve_provider_def vpn_provider_def)
  have b: "find (\<lambda>s. setting_provider s = Some (provider_id vpn_provider) \<and>
                setting_currency s = Some (currency_code usd) \<and> is_active s) all_scopes
       = Some \<lparr>setting_currency = Some ''USD'', setting_provider = Some ''P1'',
               rate = Decimal 100 (- 4), is_active = True, is_global = False\<rparr>"
    by (simp add: all_scopes_def vpn_provider_def usd_def)
  note t = commission_rate_precedence
             [of "Decimal 5 (- 2)" "[vpn_provider]" all_scopes usd "Some ''P1''"]
  have "get_commission_rate (Decimal 5 (- 2)) [vpn_provider] all_scopes (Some usd) (Some ''P1'')
          = rate \<lparr>setting_currency = Some ''USD'', setting_provider = Some ''P1'',
                  rate = Decimal 100 (- 4), is_active = True, is_global = False\<rparr>"
    by (rule t [THEN conjunct2, rule_format, of vpn_provider]) (simp only: a b simp_thms)
  then have c: "get_commission_rate (Decimal 5 (- 2)) [vpn_provider] all_scopes (Some usd)
                        (Some ''P1'') = Decimal 100 (- 4)"
    by simp
  with t have d: "waterfall nonzero_rate (Decimal 5 (- 2)) [vpn_provider] all_scopes usd (Some ''P1'')
       = Decimal 100 (- 4)"
    by simp
  from a b c d show ?thesis by blast
qed

text \<open>
  C5 as stated fails where the provider's own rate field is zero: the field is then
  no match, and a setting of lower precedence decides.  Here an active provider with the
  rate \<open>0.0000\<close> and no setting of its own gets the rate \<open>0.0300\<close> of the setting for
  the currency, where the claimed order gives the provider's \<open>0.0000\<close>.
\<close>

theorem zero_provider_rate_is_skipped:
  "get_commission_rate (Decimal 5 (- 2)) [free_provider] all_scopes (Some usd) (Some ''P2'')
     = Decimal 300 (- 4)
   \<and> waterfall_as_claimed (Decimal 5 (- 2)) [free_provider] all_scopes usd (Some ''P2'')
     = Decimal 0 (- 4)
   \<and> dec_val (Decimal 300 (- 4)) \<noteq> dec_val (Decimal 0 (- 4))"
  by (simp add: get_commission_rate_def waterfall_as_claimed_def waterfall_def
      resolve_provider_def scoped_setting_def global_setting_def free_provider_def
      all_scopes_def usd_def dec_truthy_def dec_val_def Let_def)

section \<open>Commission: the amounts\<close>

lemma commission_product_small:
  assumes "\<bar>ca\<bar> < (10::int) ^ 22" "\<bar>cr\<bar> < (10::int) ^ 5"
  shows "\<bar>ca * cr\<bar> < 10 ^ 27"
proof -
  have "\<bar>ca\<bar> * \<bar>cr\<bar> < 10 ^ 22 * 10 ^ 5"
    using assms by (intro mult_strict_mono) simp_all
  then show ?thesis by (simp add: abs_mult)
qed

lemma abs_diff_small:
  fixes x y :: int
  assumes "\<bar>x\<bar> < 10 ^ 26" "\<bar>y\<bar> < 10 ^ 27"
  shows "\<bar>x + - y\<bar> < 10 ^ 28"
  using assms by (simp add: abs_if split: if_splits)

lemma commission_exact:
  assumes a: "\<bar>coefficient amount\<bar> < 10 ^ 22"
    and r: "\<bar>coefficient r\<bar> < 10 ^ 5" "- 4 \<le> exponent r" "exponent r \<le> 0"
  shows "dec_val (dec_mul amount r) = dec_val amount * dec_val r"
    and "dec_val (dec_sub amount (dec_mul amount r)) = dec_val amount - dec_val (dec_mul amount r)"
    and "exponent (dec_mul amount r) = exponent amount + exponent r"
proof -
  let ?ca = "coefficient amount" and ?cr = "coefficient r"
  let ?ea = "exponent amount" and ?er = "exponent r"
  have prod: "\<bar>?ca * ?cr\<bar> < 10 ^ 27"
    using a r(1) by (rule commission_product_small)
  then have prod28: "\<bar>?ca * ?cr\<bar> < 10 ^ 28" by simp
  have mul: "dec_mul amount r = Decimal (?ca * ?cr) (?ea + ?er)"
    using prod28 by (rule dec_mul_exact)
  show "dec_val (dec_mul amount r) = dec_val amount * dec_val r"
    using prod28 by (rule dec_mul_exact)
  show "exponent (dec_mul amount r) = ?ea + ?er" by (simp add: mul)
  let ?c = "dec_neg (dec_mul amount r)"
  have ce: "exponent ?c = ?ea + ?er" "coefficient ?c = - (?ca * ?cr)"
    by (simp_all add: mul dec_neg_def)
  have mn: "min ?ea (exponent ?c) = ?ea + ?er" using r(3) ce by simp
  have shift: "nat (?ea - (?ea + ?er)) = nat (- ?er)" "nat (exponent ?c - (?ea + ?er)) = 0"
    using ce by simp_all
  have "(10::int) ^ nat (- ?er) \<le> 10 ^ 4"
    using r(2) by (intro power_increasing) simp_all
  then have "\<bar>?ca\<bar> * 10 ^ nat (- ?er) \<le> \<bar>?ca\<bar> * 10 ^ 4"
    by (intro mult_left_mono) simp_all
  also have "\<dots> < 10 ^ 22 * 10 ^ 4" using a by simp
  finally have scaled: "\<bar>?ca * 10 ^ nat (- ?er)\<bar> < 10 ^ 26"
    by (simp add: abs_mult)
  have "\<bar>?ca * 10 ^ nat (- ?er) + - (?ca * ?cr)\<bar> < 10 ^ 28"
    using scaled prod by (rule abs_diff_small)
  then have small: "\<bar>coefficient amount * 10 ^ nat (exponent amount - min (exponent amount) (exponent ?c)) +
            coefficient ?c * 10 ^ nat (exponent ?c - min (exponent amount) (exponent ?c))\<bar> < 10 ^ 28"
    using r(3) by (auto simp: ce min_def)
  show "dec_val (dec_sub amount (dec_mul amount r)) = dec_val amount - dec_val (dec_mul amount r)"
    using dec_add_coefficient_exact(1) [OF small]
    by (simp add: dec_sub_def dec_val_neg)
qed

lemma calculate_commission_fields:
  "com_rate (calculate_commission d ps ss amount cur pid) = get_commission_rate d ps ss (Some cur) pid"
  "com_amount (calculate_commission d ps ss amount cur pid) =
     dec_mul amount (get_commission_rate d ps ss (Some cur) pid)"
  "com_net_amount (calculate_commission d ps ss amount cur pid) =
     dec_sub amount (dec_mul amount (get_commission_rate d ps ss (Some cur) pid))"
  by (simp_all add: calculate_commission_def Let_def)

text \<open>
  C4, as the code has it.  The commission and the net amount add up to the amount
  exactly whenever neither Decimal operation rounds: for every amount of at most 22
  significant digits and every rate of at most 5 digits with at most 4 decimal places,
  which covers the amounts and rates the model fields hold.
\<close>

theorem commission_and_net_add_up:
  assumes "\<bar>coefficient amount\<bar> < 10 ^ 22"
    and "\<bar>coefficient (com_rate (calculate_commission d ps ss amount cur pid))\<bar> < 10 ^ 5"
    and "- 4 \<le> exponent (com_rate (calculate_commission d ps ss amount cur pid))"
    and "exponent (com_rate (calculate_commission d ps ss amount cur pid)) \<le> 0"
  shows "dec_val (com_amount (calculate_commission d ps ss amount cur pid)) +
         dec_val (com_net_amount (calculate_commission d ps ss amount cur pid)) = dec_val amount"
  using commission_exact(2) [of amount "get_commission_rate d ps ss (Some cur) pid"] assms
  by (simp add: calculate_commission_fields)

theorem commission_and_net_add_up_witness:
  "\<bar>coefficient hundred\<bar> < 10 ^ 22
   \<and> com_rate (calculate_commission (Decimal 5 (- 2)) [] [] hundred usd None) = Decimal 5 (- 2)
   \<and> com_amount (calculate_commission (Decimal 5 (- 2)) [] [] hundred usd None)
       = Decimal 50000000000 (- 10)
   \<and> com_net_amount (calculate_commission (Decimal 5 (- 2)) [] [] hundred usd None)
       = Decimal 950000000000 (- 10)
   \<and> dec_val (com_amount (calculate_commission (Decimal 5 (- 2)) [] [] hundred usd None)) +
       dec_val (com_net_amount (calculate_commission (Decimal 5 (- 2)) [] [] hundred usd None))
       = dec_val hundred"
proof -
  have r: "com_rate (calculate_commission (Decimal 5 (- 2)) [] [] hundred usd None) = Decimal 5 (- 2)"
    by (simp add: calculate_commission_fields get_commission_rate_def)
  have h: "\<bar>coefficient hundred\<bar> < 10 ^ 22"
    "\<bar>coefficient (com_rate (calculate_commission (Decimal 5 (- 2)) [] [] hundred usd None))\<bar> < 10 ^ 5"
    "- 4 \<le> exponent (com_rate (calculate_commission (Decimal 5 (- 2)) [] [] hundred usd None))"
    "exponent (com_rate (calculate_commission (Decimal 5 (- 2)) [] [] hundred usd None)) \<le> 0"
    by (simp_all add: r) (simp add: hundred_def)
  have c: "com_amount (calculate_commission (Decimal 5 (- 2)) [] [] hundred usd None)
       = Decimal 50000000000 (- 10)"
    by (simp add: calculate_commission_fields get_commission_rate_def hundred_def dec_eval)
  have n: "com_net_amount (calculate_commission (Decimal 5 (- 2)) [] [] hundred usd None)
       = Decimal 950000000000 (- 10)"
    by (simp add: calculate_commission_fields get_commission_rate_def hundred_def dec_eval)
  from commission_and_net_add_up [OF h] h(1) r c n show ?thesis by simp
qed

lemma drift_amounts:
  "com_amount (calculate_commission (Decimal 5 (- 2)) [] ten_percent five_elevenths usd None)
     = Decimal 4545454545454545454545454545 (- 29)"
  "com_net_amount (calculate_commission (Decimal 5 (- 2)) [] ten_percent five_elevenths usd None)
     = Decimal 4090909090909090909090909090 (- 28)"
  by (simp_all add: calculate_commission_fields get_commission_rate_def ten_percent_def
      five_elevenths_def dec_eval)

text \<open>
  C4 as stated fails on an amount of 28 digits, as a conversion through an inverted
  exchange rate (\<^verbatim>\<open>Decimal('1') / reverse_rate\<close>) produces: \<open>5 / 11\<close> at the rate
  \<open>0.1000\<close>.  The difference is rounded to 28 digits, and commission and net amount
  miss the amount by \<open>5 * 10 ^ -29\<close>; Python's own sum of the two is a different
  Decimal from the amount as well.
\<close>

theorem commission_rounding_drift:
  "com_amount (calculate_commission (Decimal 5 (- 2)) [] ten_percent five_elevenths usd None)
     = Decimal 4545454545454545454545454545 (- 29)
   \<and> com_net_amount (calculate_commission (Decimal 5 (- 2)) [] ten_percent five_elevenths usd None)
     = Decimal 4090909090909090909090909090 (- 28)
   \<and> dec_val (com_amount
         (calculate_commission (Decimal 5 (- 2)) [] ten_percent five_elevenths usd None)) +
       dec_val (com_net_amount
         (calculate_commission (Decimal 5 (- 2)) [] ten_percent five_elevenths usd None))
     \<noteq> dec_val five_elevenths
   \<and> dec_add (Decimal 4545454545454545454545454545 (- 29))
         (Decimal 4090909090909090909090909090 (- 28))
     = Decimal 4545454545454545454545454544 (- 28)"
proof -
  have v: "dec_val (Decimal 4545454545454545454545454545 (- 29)) +
           dec_val (Decimal 4090909090909090909090909090 (- 28)) \<noteq> dec_val five_elevenths"
    by (simp add: dec_val_def five_elevenths_def)
  have s: "dec_add (Decimal 4545454545454545454545454545 (- 29))
         (Decimal 4090909090909090909090909090 (- 28))
     = Decimal 4545454545454545454545454544 (- 28)"
    by (simp add: dec_eval)
  from v s show ?thesis by (simp only: drift_amounts simp_thms)
qed

text \<open>
  C6, as the code has it.  The commission is the Decimal product of amount and rate,
  not rounded to the currency's \<^verbatim>\<open>decimal_places\<close>: for an amount of at most 22 digits
  and a rate of at most 5 digits with at most 4 decimal places it is the exact product,
  with the decimal places of both factors together.  The net amount is the amount less
  the commission, taken by subtraction.  The currency's \<^verbatim>\<open>decimal_places\<close> has no
  influence on either.
\<close>

theorem commission_is_unrounded_product:
  assumes "\<bar>coefficient amount\<bar> < 10 ^ 22"
    and "\<bar>coefficient (com_rate (calculate_commission d ps ss amount cur pid))\<bar> < 10 ^ 5"
    and "- 4 \<le> exponent (com_rate (calculate_commission d ps ss amount cur pid))"
    and "exponent (com_rate (calculate_commission d ps ss amount cur pid)) \<le> 0"
  shows "dec_val (com_amount (calculate_commission d ps ss amount cur pid)) =
           dec_val amount * dec_val (com_rate (calculate_commission d ps ss amount cur pid))
    \<and> exponent (com_amount (calculate_commission d ps ss amount cur pid)) =
           exponent amount + exponent (com_rate (calculate_commission d ps ss amount cur pid))
    \<and> com_net_amount (calculate_commission d ps ss amount cur pid) =
           dec_sub amount (com_amount (calculate_commission d ps ss amount cur pid))
    \<and> dec_val (com_net_amount (calculate_commission d ps ss amount cur pid)) =
           dec_val amount - dec_val (com_amount (calculate_commission d ps ss amount cur pid))
    \<and> (\<forall>n. com_amount (calculate_commission d ps ss amount (cur\<lparr>decimal_places := n\<rparr>) pid) =
             com_amount (calculate_commission d ps ss amount cur pid)
           \<and> com_net_amount (calculate_commission d ps ss amount (cur\<lparr>decimal_places := n\<rparr>) pid) =
             com_net_amount (calculate_commission d ps ss amount cur pid))"
proof -
  let ?r = "get_commission_rate d ps ss (Some cur) pid"
  have h: "\<bar>coefficient ?r\<bar> < 10 ^ 5" "- 4 \<le> exponent ?r" "exponent ?r \<le> 0"
    using assms(2-4) by (simp_all add: calculate_commission_fields)
  note e = commission_exact [OF assms(1) h]
  have same: "get_commission_rate d ps ss (Some (cur\<lparr>decimal_places := n\<rparr>)) pid = ?r" for n
    by (simp add: get_commission_rate_waterfall waterfall_def)
  show ?thesis
    using e by (simp add: calculate_commission_fields same)
qed

lemma one_cent_commission:
  "com_rate (calculate_commission (Decimal 5 (- 2)) [] five_percent one_cent usd None)
     = Decimal 500 (- 4)"
  "com_amount (calculate_commission (Decimal 5 (- 2)) [] five_percent one_cent usd None)
     = Decimal 500 (- 6)"
  "com_net_amount (calculate_commission (Decimal 5 (- 2)) [] five_percent one_cent usd None)
     = Decimal 9500 (- 6)"
  by (simp_all add: calculate_commission_fields get_commission_rate_def five_percent_def
      one_cent_def dec_eval)

theorem commission_is_unrounded_product_witness:
  "\<bar>coefficient one_cent\<bar> < 10 ^ 22
   \<and> com_rate (calculate_commission (Decimal 5 (- 2)) [] five_percent one_cent usd None)
       = Decimal 500 (- 4)
   \<and> com_amount (calculate_commission (Decimal 5 (- 2)) [] five_percent one_cent usd None)
       = Decimal 500 (- 6)
   \<and> dec_val (com_amount (calculate_commission (Decimal 5 (- 2)) [] five_percent one_cent usd None))
       = dec_val one_cent * dec_val (Decimal 500 (- 4))
   \<and> dec_val (com_net_amount (calculate_commission (Decimal 5 (- 2)) [] five_percent one_cent usd None))
       = dec_val one_cent - dec_val (Decimal 500 (- 6))"
proof -
  have h: "\<bar>coefficient one_cent\<bar> < 10 ^ 22"
    "\<bar>coefficient (com_rate (calculate_commission (Decimal 5 (- 2)) [] five_percent one_cent usd None))\<bar> < 10 ^ 5"
    "- 4 \<le> exponent (com_rate (calculate_commission (Decimal 5 (- 2)) [] five_percent one_cent usd None))"
    "exponent (com_rate (calculate_commission (Decimal 5 (- 2)) [] five_percent one_cent usd None)) \<le> 0"
    by (simp_all add: one_cent_commission) (simp add: one_cent_def)
  from commission_is_unrounded_product [OF h] h(1) show ?thesis
    unfolding one_cent_commission by blast
qed

text \<open>
  C6 as stated fails on one cent of a currency with two decimal places at the rate
  \<open>0.0500\<close>: the commission returned is \<open>0.000500\<close>, which is not the product rounded
  to two places (\<open>0.00\<close>) and is no multiple of \<open>0.01\<close> at all.
\<close>

theorem commission_not_rounded_to_currency:
  "decimal_places usd = 2
   \<and> com_amount (calculate_commission (Decimal 5 (- 2)) [] five_percent one_cent usd None)
       = Decimal 500 (- 6)
   \<and> dec_quantize (dec_mul one_cent (Decimal 500 (- 4))) (decimal_places usd) = Decimal 0 (- 2)
   \<and> dec_val (Decimal 500 (- 6)) \<noteq> dec_val (Decimal 0 (- 2))
   \<and> (\<forall>k::int. dec_val (Decimal 500 (- 6)) \<noteq> of_int k / 10 ^ 2)"
proof -
  have q: "dec_quantize (dec_mul one_cent (Decimal 500 (- 4))) (decimal_places usd) = Decimal 0 (- 2)"
    by (simp add: dec_quantize_def one_cent_def usd_def dec_eval)
  have v: "dec_val (Decimal 500 (- 6)) \<noteq> dec_val (Decimal 0 (- 2))"
    by (simp add: dec_val_def)
  have m: "dec_val (Decimal 500 (- 6)) \<noteq> of_int k / 10 ^ 2" for k :: int
  proof
    assume "dec_val (Decimal 500 (- 6)) = of_int k / 10 ^ 2"
    then have "(of_int (20 * k) :: rat) = of_int 1" by (simp add: dec_val_def)
    then have "20 * k = 1" by (simp only: of_int_eq_iff)
    then show False by presburger
  qed
  have u: "decimal_places usd = 2" by (simp add: usd_def)
  from u q v m one_cent_commission(2) show ?thesis by blast
qed

end
